theory Spec2Isabelle
  imports Complex_Main
begin

section \<open>Data model of the session snapshot\<close>

text \<open>
  Modelled from the spec: the type declarations of \<^verbatim>\<open>types.ts\<close> (\<^verbatim>\<open>ToolEntry\<close>,
  \<^verbatim>\<open>AgentEntry\<close>, \<^verbatim>\<open>TodoItem\<close>, \<^verbatim>\<open>RenderContext\<close>) are missing from the sources. The records
  below follow the data model of the specification and carry the fields that the three
  classifiers read: \<^verbatim>\<open>detectActivityState\<close> of \<^verbatim>\<open>render/animation-line.ts\<close>, the
  \<^verbatim>\<open>detectActivityState\<close> of the one-line spinner renderer, and \<^verbatim>\<open>detectMesmericMode\<close> of
  \<^verbatim>\<open>render/mesmeric.ts\<close>. A \<^verbatim>\<open>Date\<close> is its \<^verbatim>\<open>getTime()\<close> value in milliseconds, an
  optional field is an \<open>option\<close>, a JavaScript string is a \<open>string\<close> of ASCII characters.
\<close>

datatype Status = Running | Completed

datatype TodoStatus = Pending | InProgress | Done

record ToolEntry =
  name :: string
  target :: "string option"
  status :: Status
  startTime :: int
  endTime :: "int option"

record AgentEntry =
  agent_type :: string
  description :: "string option"
  agent_status :: Status
  agent_startTime :: int

record TodoItem =
  content :: string
  todo_status :: TodoStatus

record Usage =
  input_tokens :: "int option"
  cache_creation_input_tokens :: "int option"
  cache_read_input_tokens :: "int option"

record ContextWindow =
  current_usage :: "Usage option"
  context_window_size :: "int option"

record StdinData =
  context_window :: "ContextWindow option"

record Transcript =
  tools :: "ToolEntry list"
  agents :: "AgentEntry list"
  todos :: "TodoItem list"

record RenderContext =
  stdin :: StdinData
  transcript :: Transcript

text \<open>
  \<^verbatim>\<open>ActivityState\<close> is the union of the two declarations found in the sources:
  \<^verbatim>\<open>animations.ts\<close> lists \<^verbatim>\<open>progress\<close> and \<^verbatim>\<open>animations.d.ts\<close> lists \<^verbatim>\<open>sleeping\<close>.
\<close>

datatype ActivityState =
  Idle | Sleeping | Thinking | Reading | Writing | Searching | Agent | Bash | Fetch
  | Pressure | Progress | Success

datatype MesmericMode = IDLE | SCAN | BUILD | CRUNCH | SUCCESS | SLEEP | PRESSURE

text \<open>
  The result of \<^verbatim>\<open>detectActivityState\<close> is \<^verbatim>\<open>{ state, detail, startTime? }\<close>; its optional
  start time is the field \<open>since\<close>. The result of \<^verbatim>\<open>detectMesmericMode\<close> is
  \<^verbatim>\<open>{ mode, detail }\<close>.
\<close>

record Activity =
  state :: ActivityState
  detail :: string
  since :: "int option"

record Mesmeric =
  mode :: MesmericMode
  mode_detail :: string

section \<open>Data model of the cost tracker\<close>

text \<open>
  Modelled from the spec: \<^verbatim>\<open>cost-tracker.ts\<close> is not among the sources (only its test file
  and the configuration reader that builds the partial pricing table are), so the records
  and operations of this section follow the specification's description of the cost
  tracker. A price is a rational number of dollars per million tokens; the counters are
  natural numbers of tokens.
\<close>

record Rate =
  inputPricePerMillion :: rat
  outputPricePerMillion :: rat

record PricingConfig =
  sonnet :: Rate
  opus :: Rate
  haiku :: Rate
  lastUpdated :: string

text \<open>
  Modelled from the spec: the partial pricing override
  \<^verbatim>\<open>{ sonnet?, opus?, haiku?, lastUpdated? }\<close>, each family carrying both of its prices,
  as \<^verbatim>\<open>normalizePricing\<close> of \<^verbatim>\<open>hud-config.ts\<close> hands it over.
\<close>

record PartialPricing =
  sonnet_opt :: "Rate option"
  opus_opt :: "Rate option"
  haiku_opt :: "Rate option"
  lastUpdated_opt :: "string option"

text \<open>
  Modelled from the spec: the event record (event kind, tool name, input, response,
  prompt). The structured objects are of an arbitrary type \<open>'obj\<close>.
\<close>

record 'obj HudEvent =
  eventKind :: string
  toolName :: "string option"
  input :: "'obj option"
  response :: "'obj option"
  prompt :: "string option"

text \<open>
  Modelled from the spec: the state of one cost tracker (two counters, the model selector
  and the pricing table).
\<close>

record CostTracker =
  inputTokens :: nat
  outputTokens :: nat
  model :: string
  pricing :: PricingConfig

section \<open>JavaScript numbers\<close>

text \<open>
  A JavaScript number is an IEEE 754 double. A finite double is a rational number, so the
  model computes in \<open>rat\<close> and rounds the exact result of every operation to the nearest
  double (53 significant bits, ties to the even significand), which is what the hardware
  does. \<open>bitlen a\<close> is the number of binary digits of a positive integer, \<open>ilog2 x\<close> the
  binary exponent of a positive rational, \<open>fl x\<close> the double nearest to \<open>x\<close>. Overflow
  and subnormal numbers are out of reach of token counts and are not modelled.
\<close>

function bitlen :: "int \<Rightarrow> int" where
  "bitlen a = (if a \<le> 0 then 0 else 1 + bitlen (a div 2))"
  by pat_completeness auto
termination
  by (relation "measure nat") auto

declare bitlen.simps [simp del]

definition pow2 :: "int \<Rightarrow> rat" where
  "pow2 k = (if 0 \<le> k then 2 ^ nat k else 1 / 2 ^ nat (- k))"

definition ilog2 :: "rat \<Rightarrow> int" where
  "ilog2 x =
     (let (a, b) = quotient_of x;
          k = bitlen a - bitlen b
      in if pow2 k \<le> x then k else k - 1)"

definition roundTiesToEven :: "rat \<Rightarrow> int" where
  "roundTiesToEven x =
     (let f = \<lfloor>x\<rfloor>; r = x - of_int f
      in if r < 1 / 2 then f else if 1 / 2 < r then f + 1 else if even f then f else f + 1)"

definition fl :: "rat \<Rightarrow> rat" where
  "fl x =
     (if x = 0 then 0
      else let u = pow2 (ilog2 \<bar>x\<bar> - 52)
           in sgn x * of_int (roundTiesToEven (\<bar>x\<bar> / u)) * u)"

definition js_add :: "rat \<Rightarrow> rat \<Rightarrow> rat" where
  "js_add x y = fl (x + y)"

definition js_mul :: "rat \<Rightarrow> rat \<Rightarrow> rat" where
  "js_mul x y = fl (x * y)"

definition js_div :: "rat \<Rightarrow> rat \<Rightarrow> rat" where
  "js_div x y = fl (x / y)"

text \<open>\<^verbatim>\<open>Math.round\<close>: the nearest integer, a tie going up.\<close>

definition Math_round :: "rat \<Rightarrow> int" where
  "Math_round x = \<lfloor>x + 1 / 2\<rfloor>"

text \<open>
  An integer-valued number inside a template literal prints as its decimal digits.
  \<open>numToString\<close> is that printing for integers up to \<open>2\<^sup>5\<^sup>3\<close> in absolute value: beyond
  \<open>2\<^sup>5\<^sup>3\<close> JavaScript prints the shortest digits that identify the double, and from
  \<open>10\<^sup>2\<^sup>1\<close> it prints exponent notation. Every theorem that states a printed number
  carries this bound (an array has fewer than \<open>2\<^sup>3\<^sup>2\<close> elements).
\<close>

fun digits :: "nat \<Rightarrow> string" where
  "digits n =
     (if n < 10 then [''0123456789'' ! n]
      else digits (n div 10) @ [''0123456789'' ! (n mod 10)])"

declare digits.simps [simp del]

definition numToString :: "int \<Rightarrow> string" where
  "numToString i = (if i < 0 then CHR ''-'' # digits (nat (- i)) else digits (nat i))"

text \<open>\<^verbatim>\<open>a ?? d\<close> on an optional number.\<close>

definition nullish :: "'a option \<Rightarrow> 'a \<Rightarrow> 'a" where
  "nullish v d = (case v of None \<Rightarrow> d | Some x \<Rightarrow> x)"

section \<open>JavaScript strings\<close>

text \<open>\<^verbatim>\<open>String.prototype.slice(0, end)\<close>: a negative \<^verbatim>\<open>end\<close> counts from the end of the string.\<close>

definition slice0 :: "string \<Rightarrow> int \<Rightarrow> string" where
  "slice0 text e =
     (if e < 0 then take (nat (int (length text) + e)) text else take (nat e) text)"

text \<open>\<^verbatim>\<open>toLowerCase\<close> on ASCII: the letters A to Z move down, every other character stays.\<close>

definition lowerChar :: "char \<Rightarrow> char" where
  "lowerChar c =
     (let n = (of_char c :: nat) in if 65 \<le> n \<and> n \<le> 90 then char_of (n + 32) else c)"

definition toLowerCase :: "string \<Rightarrow> string" where
  "toLowerCase s = map lowerChar s"

text \<open>\<^verbatim>\<open>s.includes(p)\<close>: \<open>p\<close> occurs in \<open>s\<close> as a contiguous run of characters.\<close>

fun startsWith :: "string \<Rightarrow> string \<Rightarrow> bool" where
  "startsWith s [] = True"
| "startsWith [] (p # ps) = False"
| "startsWith (c # cs) (p # ps) = (c = p \<and> startsWith cs ps)"

fun str_includes :: "string \<Rightarrow> string \<Rightarrow> bool" where
  "str_includes [] p = (p = [])"
| "str_includes (c # cs) p = (startsWith (c # cs) p \<or> str_includes cs p)"

text \<open>\<^verbatim>\<open>a || b\<close> on an optional string: an absent or empty \<open>a\<close> gives \<open>b\<close>.\<close>

definition or_else :: "string option \<Rightarrow> string \<Rightarrow> string" where
  "or_else a b = (case a of None \<Rightarrow> b | Some s \<Rightarrow> if s = [] then b else s)"

text \<open>\<^verbatim>\<open>function truncate(text, maxLen)\<close>, the same in all three files.\<close>

definition truncate :: "string \<Rightarrow> int \<Rightarrow> string" where
  "truncate text maxLen =
     (if int (length text) \<le> maxLen then text else slice0 text (maxLen - 3) @ ''...'')"

section \<open>The classifier of \<^verbatim>\<open>animation-line.ts\<close>\<close>

text \<open>
  \<^verbatim>\<open>getContextPercent\<close>, the same in all three files. \<open>usage_of\<close> and \<open>size_of\<close> are its
  locals \<^verbatim>\<open>usage\<close> and \<^verbatim>\<open>size\<close> (the optional chain \<^verbatim>\<open>ctx.stdin.context_window?.\<close>),
  \<open>totalTokens\<close> its local of that name. \<^verbatim>\<open>!usage\<close> holds for an absent usage object,
  \<^verbatim>\<open>!size\<close> for an absent size and for the size 0. Token counts and the window size are
  integers, which a double holds exactly up to \<open>2\<^sup>5\<^sup>3\<close>.
\<close>

definition usage_of :: "RenderContext \<Rightarrow> Usage option" where
  "usage_of ctx = Option.bind (context_window (stdin ctx)) current_usage"

definition size_of :: "RenderContext \<Rightarrow> int option" where
  "size_of ctx = Option.bind (context_window (stdin ctx)) context_window_size"

definition totalTokens :: "Usage \<Rightarrow> rat" where
  "totalTokens u =
     js_add
       (js_add (of_int (nullish (input_tokens u) 0))
          (of_int (nullish (cache_creation_input_tokens u) 0)))
       (of_int (nullish (cache_read_input_tokens u) 0))"

definition getContextPercent :: "RenderContext \<Rightarrow> int" where
  "getContextPercent ctx =
     (case usage_of ctx of
        None \<Rightarrow> 0
      | Some u \<Rightarrow>
          (case size_of ctx of
             None \<Rightarrow> 0
           | Some s \<Rightarrow>
               if s = 0 then 0
               else Math_round (js_mul (js_div (totalTokens u) (of_int s)) 100)))"

definition getToolState :: "ToolEntry \<Rightarrow> ActivityState" where
  "getToolState tool =
     (let n = toLowerCase (name tool)
      in if str_includes n ''read'' \<or> str_includes n ''glob'' \<or> n = ''ls'' then Reading
         else if str_includes n ''write'' \<or> str_includes n ''edit'' \<or> str_includes n ''multiedit''
                 \<or> str_includes n ''notebook'' then Writing
         else if str_includes n ''grep'' \<or> str_includes n ''search'' \<or> str_includes n ''find''
           then Searching
         else if str_includes n ''bash'' \<or> str_includes n ''shell'' \<or> str_includes n ''exec'' then Bash
         else if str_includes n ''fetch'' \<or> str_includes n ''web'' \<or> str_includes n ''http'' then Fetch
         else if str_includes n ''task'' \<or> str_includes n ''agent'' then Agent
         else Thinking)"

definition getToolDetail :: "ToolEntry \<Rightarrow> string" where
  "getToolDetail tool =
     (case target tool of
        None \<Rightarrow> name tool
      | Some t \<Rightarrow> if t = [] then name tool else truncate t 25)"

text \<open>
  \<^verbatim>\<open>detectActivityState\<close>. The wall clock \<^verbatim>\<open>Date.now()\<close> is the parameter \<open>now\<close>, in
  milliseconds. The rules are tried in the order of the source and the first that applies
  returns.
\<close>

definition detectActivityState :: "int \<Rightarrow> RenderContext \<Rightarrow> Activity" where
  "detectActivityState now ctx =
     (let ts = tools (transcript ctx);
          ags = agents (transcript ctx);
          tds = todos (transcript ctx);
          contextPercent = getContextPercent ctx;
          runningTools = filter (\<lambda>t. status t = Running) ts;
          completedTools = filter (\<lambda>t. status t = Completed) ts
      in if 90 \<le> contextPercent then
           \<lparr>state = Pressure, detail = numToString contextPercent @ ''% context used'',
            since = None\<rparr>
         else
           (case find (\<lambda>a. agent_status a = Running) ags of
              Some runningAgent \<Rightarrow>
                \<lparr>state = Agent,
                 detail =
                   truncate (or_else (description runningAgent) (agent_type runningAgent)) 30,
                 since = Some (agent_startTime runningAgent)\<rparr>
            | None \<Rightarrow>
                (if runningTools \<noteq> [] then
                   \<lparr>state = getToolState (last runningTools),
                    detail = getToolDetail (last runningTools),
                    since = Some (startTime (last runningTools))\<rparr>
                 else if completedTools \<noteq> []
                         \<and> (case endTime (last completedTools) of
                               None \<Rightarrow> False
                             | Some e \<Rightarrow> now - e < 3000) then
                   \<lparr>state = Success, detail = name (last completedTools) @ '' complete!'',
                    since = None\<rparr>
                 else if tds \<noteq> [] \<and> list_all (\<lambda>t. todo_status t = Done) tds then
                   \<lparr>state = Success, detail = ''All tasks done!'', since = None\<rparr>
                 else
                   (case find (\<lambda>t. todo_status t = InProgress) tds of
                      Some inProgressTodo \<Rightarrow>
                        \<lparr>state = Thinking, detail = truncate (content inProgressTodo) 25,
                         since = None\<rparr>
                    | None \<Rightarrow>
                        (if ts \<noteq> [] \<or> ags \<noteq> [] then
                           (if ts \<noteq> []
                               \<and> (case endTime (last ts) of
                                     None \<Rightarrow> False
                                   | Some e \<Rightarrow> now - e < 10000) then
                              \<lparr>state = Thinking, detail = ''Processing...'', since = None\<rparr>
                            else \<lparr>state = Idle, detail = ''Ready'', since = None\<rparr>)
                         else
                           \<lparr>state = Sleeping, detail = ''Waiting for input'',
                            since = None\<rparr>)))))"

section \<open>The classifier of the spinner renderer\<close>

text \<open>
  A second \<^verbatim>\<open>detectActivityState\<close> and \<^verbatim>\<open>getToolState\<close> belong to the renderer that draws
  a one-line animation with a spinner (\<^verbatim>\<open>getAnimationFrame\<close>, \<^verbatim>\<open>getSpinner\<close>). They are
  modelled under the suffix \<open>_spinner\<close>. Here the keyword \<^verbatim>\<open>ls\<close> is a substring test,
  there is no \<^verbatim>\<open>notebook\<close> keyword, an in-progress todo is tried before the recent
  completion, the recency window is 2000 ms over the last of the three latest completed
  tools, and the last fallback is \<^verbatim>\<open>idle\<close>.
\<close>

definition getToolState_spinner :: "ToolEntry \<Rightarrow> ActivityState" where
  "getToolState_spinner tool =
     (let n = toLowerCase (name tool)
      in if str_includes n ''read'' \<or> str_includes n ''glob'' \<or> str_includes n ''ls''
           then Reading
         else if str_includes n ''write'' \<or> str_includes n ''edit''
                 \<or> str_includes n ''multiedit'' then Writing
         else if str_includes n ''grep'' \<or> str_includes n ''search'' \<or> str_includes n ''find''
           then Searching
         else if str_includes n ''bash'' \<or> str_includes n ''shell'' \<or> str_includes n ''exec''
           then Bash
         else if str_includes n ''fetch'' \<or> str_includes n ''web'' \<or> str_includes n ''http''
           then Fetch
         else if str_includes n ''task'' \<or> str_includes n ''agent'' then Agent
         else Thinking)"

text \<open>\<^verbatim>\<open>xs.slice(-3)\<close>: the last three elements, or all of a shorter list.\<close>

definition slice_last3 :: "'a list \<Rightarrow> 'a list" where
  "slice_last3 xs = drop (length xs - 3) xs"

definition detectActivityState_spinner :: "int \<Rightarrow> RenderContext \<Rightarrow> Activity" where
  "detectActivityState_spinner now ctx =
     (let ts = tools (transcript ctx);
          ags = agents (transcript ctx);
          tds = todos (transcript ctx);
          contextPercent = getContextPercent ctx;
          runningTools = filter (\<lambda>t. status t = Running) ts;
          recentTools = slice_last3 (filter (\<lambda>t. status t = Completed) ts)
      in if 90 \<le> contextPercent then
           \<lparr>state = Pressure, detail = numToString contextPercent @ ''% context used'',
            since = None\<rparr>
         else
           (case find (\<lambda>a. agent_status a = Running) ags of
              Some runningAgent \<Rightarrow>
                \<lparr>state = Agent,
                 detail =
                   truncate (or_else (description runningAgent) (agent_type runningAgent)) 30,
                 since = Some (agent_startTime runningAgent)\<rparr>
            | None \<Rightarrow>
                (if runningTools \<noteq> [] then
                   \<lparr>state = getToolState_spinner (last runningTools),
                    detail = getToolDetail (last runningTools),
                    since = Some (startTime (last runningTools))\<rparr>
                 else
                   (case find (\<lambda>t. todo_status t = InProgress) tds of
                      Some inProgressTodo \<Rightarrow>
                        \<lparr>state = Progress,
                         detail =
                           numToString (int (length (filter (\<lambda>t. todo_status t = Done) tds)))
                           @ ''/'' @ numToString (int (length tds)) @ '' tasks'',
                         since = None\<rparr>
                    | None \<Rightarrow>
                        (if recentTools \<noteq> []
                            \<and> (case endTime (last recentTools) of
                                  None \<Rightarrow> False
                                | Some e \<Rightarrow> now - e < 2000) then
                           \<lparr>state = Success, detail = name (last recentTools) @ '' done!'',
                            since = None\<rparr>
                         else if tds \<noteq> [] \<and> list_all (\<lambda>t. todo_status t = Done) tds then
                           \<lparr>state = Success, detail = ''All tasks complete!'', since = None\<rparr>
                         else if ts \<noteq> [] \<or> ags \<noteq> [] then
                           \<lparr>state = Thinking, detail = ''Processing...'', since = None\<rparr>
                         else
                           \<lparr>state = Idle, detail = ''Waiting for input'', since = None\<rparr>)))))"

section \<open>The classifier of the wave visualizer\<close>

text \<open>\<^verbatim>\<open>getToolMode\<close> and \<^verbatim>\<open>detectMesmericMode\<close> of \<^verbatim>\<open>render/mesmeric.ts\<close>.\<close>

definition getToolMode :: "ToolEntry \<Rightarrow> MesmericMode" where
  "getToolMode tool =
     (let n = toLowerCase (name tool)
      in if str_includes n ''read'' \<or> str_includes n ''glob'' \<or> n = ''ls'' then SCAN
         else if str_includes n ''write'' \<or> str_includes n ''edit''
                 \<or> str_includes n ''multiedit'' \<or> str_includes n ''notebook'' then BUILD
         else if str_includes n ''grep'' \<or> str_includes n ''search'' \<or> str_includes n ''find''
           then SCAN
         else if str_includes n ''bash'' \<or> str_includes n ''shell'' \<or> str_includes n ''exec''
           then CRUNCH
         else if str_includes n ''fetch'' \<or> str_includes n ''web'' \<or> str_includes n ''http''
           then SCAN
         else if str_includes n ''task'' \<or> str_includes n ''agent'' then CRUNCH
         else BUILD)"

definition detectMesmericMode :: "int \<Rightarrow> RenderContext \<Rightarrow> Mesmeric" where
  "detectMesmericMode now ctx =
     (let ts = tools (transcript ctx);
          ags = agents (transcript ctx);
          tds = todos (transcript ctx);
          contextPercent = getContextPercent ctx;
          runningTools = filter (\<lambda>t. status t = Running) ts;
          completedTools = filter (\<lambda>t. status t = Completed) ts
      in if 90 \<le> contextPercent then
           \<lparr>mode = PRESSURE, mode_detail = numToString contextPercent @ ''% context''\<rparr>
         else
           (case find (\<lambda>a. agent_status a = Running) ags of
              Some runningAgent \<Rightarrow>
                \<lparr>mode = CRUNCH,
                 mode_detail =
                   truncate (or_else (description runningAgent) (agent_type runningAgent)) 25\<rparr>
            | None \<Rightarrow>
                (if runningTools \<noteq> [] then
                   \<lparr>mode = getToolMode (last runningTools),
                    mode_detail = getToolDetail (last runningTools)\<rparr>
                 else if completedTools \<noteq> []
                         \<and> (case endTime (last completedTools) of
                               None \<Rightarrow> False
                             | Some e \<Rightarrow> now - e < 3000) then
                   \<lparr>mode = SUCCESS, mode_detail = ''Complete!''\<rparr>
                 else if tds \<noteq> [] \<and> list_all (\<lambda>t. todo_status t = Done) tds then
                   \<lparr>mode = SUCCESS, mode_detail = ''All tasks done!''\<rparr>
                 else
                   (case find (\<lambda>t. todo_status t = InProgress) tds of
                      Some inProgressTodo \<Rightarrow>
                        \<lparr>mode = BUILD, mode_detail = truncate (content inProgressTodo) 25\<rparr>
                    | None \<Rightarrow>
                        (if ts \<noteq> [] \<or> ags \<noteq> [] then
                           (if ts \<noteq> []
                               \<and> (case endTime (last ts) of
                                     None \<Rightarrow> False
                                   | Some e \<Rightarrow> now - e < 10000) then
                              \<lparr>mode = IDLE, mode_detail = ''Thinking...''\<rparr>
                            else \<lparr>mode = IDLE, mode_detail = ''Ready''\<rparr>)
                         else \<lparr>mode = SLEEP, mode_detail = ''Waiting for input''\<rparr>)))))"

section \<open>The operations of the cost tracker\<close>

datatype family = Sonnet | Opus | Haiku

fun rate_of :: "family \<Rightarrow> PricingConfig \<Rightarrow> Rate" where
  "rate_of Sonnet p = sonnet p"
| "rate_of Opus p = opus p"
| "rate_of Haiku p = haiku p"

fun override_of :: "family \<Rightarrow> PartialPricing \<Rightarrow> Rate option" where
  "override_of Sonnet ov = sonnet_opt ov"
| "override_of Opus ov = opus_opt ov"
| "override_of Haiku ov = haiku_opt ov"

text \<open>
  Modelled from the spec: \<^verbatim>\<open>mergePricing(base, override?)\<close>, missing from the sources.
  Without an override the base table is returned; with one, each family and the date are
  taken from the override where it has them and from the base otherwise.
\<close>

definition mergePricing :: "PricingConfig \<Rightarrow> PartialPricing option \<Rightarrow> PricingConfig" where
  "mergePricing base override =
     (case override of
        None \<Rightarrow> base
      | Some ov \<Rightarrow>
          \<lparr>sonnet = (case sonnet_opt ov of None \<Rightarrow> sonnet base | Some r \<Rightarrow> r),
           opus = (case opus_opt ov of None \<Rightarrow> opus base | Some r \<Rightarrow> r),
           haiku = (case haiku_opt ov of None \<Rightarrow> haiku base | Some r \<Rightarrow> r),
           lastUpdated = (case lastUpdated_opt ov of None \<Rightarrow> lastUpdated base | Some d \<Rightarrow> d)\<rparr>)"

definition msPerDay :: int where
  "msPerDay = 1000 * 60 * 60 * 24"

definition stalenessThresholdDays :: rat where
  "stalenessThresholdDays = 90"

text \<open>
  Modelled from the spec: \<^verbatim>\<open>isPricingStale(dateString)\<close>, missing from the sources. The
  date parser is the parameter \<open>parseDate\<close>, giving the milliseconds of a date or nothing
  for a string it cannot read; \<open>now\<close> is the clock in milliseconds. The table is stale
  when more than 90 days lie between the date and now, and when the date cannot be read.
\<close>

definition isPricingStale :: "(string \<Rightarrow> int option) \<Rightarrow> int \<Rightarrow> string \<Rightarrow> bool" where
  "isPricingStale parseDate now dateString =
     (case parseDate dateString of
        None \<Rightarrow> True
      | Some parsed \<Rightarrow> stalenessThresholdDays < of_int (now - parsed) / of_int msPerDay)"

text \<open>
  Modelled from the spec: the token estimate, the character count divided by 4 and rounded;
  the rounding is the parameter \<open>rounding\<close>, the same at every use.
\<close>

definition estimateTokens :: "(rat \<Rightarrow> nat) \<Rightarrow> string \<Rightarrow> nat" where
  "estimateTokens rounding s = rounding (of_nat (length s) / 4)"

text \<open>
  Modelled from the spec: \<^verbatim>\<open>processEvent(event)\<close>, missing from the sources. A tool
  completion (\<^verbatim>\<open>PostToolUse\<close> in the test file) adds the estimate of the serialized input
  to the input counter and that of the serialized response to the output counter, a prompt
  submission (\<^verbatim>\<open>UserPromptSubmit\<close>) adds the estimate of the prompt to the input counter,
  any other kind changes nothing. \<open>serialize\<close> is the canonical text form of an object.
\<close>

definition processEvent ::
  "('obj \<Rightarrow> string) \<Rightarrow> (rat \<Rightarrow> nat) \<Rightarrow> 'obj HudEvent \<Rightarrow> CostTracker \<Rightarrow> CostTracker" where
  "processEvent serialize rounding e s =
     (if eventKind e = ''PostToolUse'' then
        s\<lparr>inputTokens :=
             inputTokens s
             + (case input e of
                  None \<Rightarrow> 0
                | Some i \<Rightarrow> estimateTokens rounding (serialize i)),
          outputTokens :=
             outputTokens s
             + (case response e of
                  None \<Rightarrow> 0
                | Some r \<Rightarrow> estimateTokens rounding (serialize r))\<rparr>
      else if eventKind e = ''UserPromptSubmit'' then
        (case prompt e of
           None \<Rightarrow> s
         | Some p \<Rightarrow> s\<lparr>inputTokens := inputTokens s + estimateTokens rounding p\<rparr>)
      else s)"

text \<open>Modelled from the spec: a chronological stream of events, processed one by one.\<close>

definition processEvents ::
  "('obj \<Rightarrow> string) \<Rightarrow> (rat \<Rightarrow> nat) \<Rightarrow> 'obj HudEvent list \<Rightarrow> CostTracker \<Rightarrow> CostTracker" where
  "processEvents serialize rounding es s = foldl (\<lambda>acc e. processEvent serialize rounding e acc) s es"

text \<open>Modelled from the spec: \<^verbatim>\<open>reset()\<close>, which zeroes the counters.\<close>

definition reset :: "CostTracker \<Rightarrow> CostTracker" where
  "reset s = s\<lparr>inputTokens := 0, outputTokens := 0\<rparr>"

text \<open>Modelled from the spec: \<^verbatim>\<open>setModel(modelIdentifier)\<close>.\<close>

definition setModel :: "string \<Rightarrow> CostTracker \<Rightarrow> CostTracker" where
  "setModel m s = s\<lparr>model := m\<rparr>"

text \<open>Modelled from the spec: \<^verbatim>\<open>setPricing(partialTable)\<close>, a merge into the active table.\<close>

definition setPricing :: "PartialPricing \<Rightarrow> CostTracker \<Rightarrow> CostTracker" where
  "setPricing p s = s\<lparr>pricing := mergePricing (pricing s) (Some p)\<rparr>"

section \<open>The context percentage of the specification\<close>

text \<open>
  The formula of the specification, in exact arithmetic: one hundred times the sum of the
  three token counts, divided by the window size and rounded to the nearest integer.
\<close>

definition contextPercent_spec :: "int \<Rightarrow> int \<Rightarrow> int \<Rightarrow> int \<Rightarrow> int" where
  "contextPercent_spec i c r w = Math_round (100 * of_int (i + c + r) / of_int w)"

section \<open>The keyword table of the specification\<close>

text \<open>
  The specification describes the mapping from tool names to states as an ordered table of
  keywords, the first matching row winning: a keyword matches when the lower-cased name
  contains it, except \<^verbatim>\<open>ls\<close>, which must be the whole name. \<open>toolRules\<close> is that table,
  written from the specification's words, with the state of the character renderer and the
  mode of the wave visualizer in each row. \<open>toolRules_spinner\<close> is the table the spinner
  renderer implements instead.
\<close>

datatype keyword = Contains string | Equals string

fun matches :: "string \<Rightarrow> keyword \<Rightarrow> bool" where
  "matches n (Contains k) = str_includes n k"
| "matches n (Equals k) = (n = k)"

fun firstMatch :: "string \<Rightarrow> (keyword list \<times> 'a) list \<Rightarrow> 'a \<Rightarrow> 'a" where
  "firstMatch n [] d = d"
| "firstMatch n ((ks, r) # rules) d = (if list_ex (matches n) ks then r else firstMatch n rules d)"

definition toolRules :: "(keyword list \<times> ActivityState \<times> MesmericMode) list" where
  "toolRules =
     [([Contains ''read'', Contains ''glob'', Equals ''ls''], Reading, SCAN),
      ([Contains ''write'', Contains ''edit'', Contains ''multiedit'', Contains ''notebook''],
       Writing, BUILD),
      ([Contains ''grep'', Contains ''search'', Contains ''find''], Searching, SCAN),
      ([Contains ''bash'', Contains ''shell'', Contains ''exec''], Bash, CRUNCH),
      ([Contains ''fetch'', Contains ''web'', Contains ''http''], Fetch, SCAN),
      ([Contains ''task'', Contains ''agent''], Agent, CRUNCH)]"

definition classifyTool :: "string \<Rightarrow> ActivityState \<times> MesmericMode" where
  "classifyTool nm = firstMatch (toLowerCase nm) toolRules (Thinking, BUILD)"

definition toolRules_spinner :: "(keyword list \<times> ActivityState) list" where
  "toolRules_spinner =
     [([Contains ''read'', Contains ''glob'', Contains ''ls''], Reading),
      ([Contains ''write'', Contains ''edit'', Contains ''multiedit''], Writing),
      ([Contains ''grep'', Contains ''search'', Contains ''find''], Searching),
      ([Contains ''bash'', Contains ''shell'', Contains ''exec''], Bash),
      ([Contains ''fetch'', Contains ''web'', Contains ''http''], Fetch),
      ([Contains ''task'', Contains ''agent''], Agent)]"

section \<open>Sample snapshots\<close>

text \<open>
  Concrete snapshots on which the theorems below are exercised: \<open>snapshot used window\<close>
  has \<open>used\<close> input tokens in a context window of \<open>window\<close> tokens.
\<close>

definition snapshot :: "int \<Rightarrow> int \<Rightarrow> ToolEntry list \<Rightarrow> AgentEntry list \<Rightarrow> TodoItem list \<Rightarrow> RenderContext" where
  "snapshot used window ts ags tds =
     \<lparr>stdin = \<lparr>context_window = Some \<lparr>current_usage =
          Some \<lparr>input_tokens = Some used, cache_creation_input_tokens = None,
                cache_read_input_tokens = None\<rparr>,
          context_window_size = Some window\<rparr>\<rparr>,
      transcript = \<lparr>tools = ts, agents = ags, todos = tds\<rparr>\<rparr>"

definition busy_tool :: ToolEntry where
  "busy_tool = \<lparr>name = ''Bash'', target = Some ''npm test'', status = Running,
     startTime = 1000, endTime = None\<rparr>"

definition busy_agent :: AgentEntry where
  "busy_agent = \<lparr>agent_type = ''Explore'', description = Some ''scan the repo'',
     agent_status = Running, agent_startTime = 500\<rparr>"

definition read_done :: ToolEntry where
  "read_done = \<lparr>name = ''Read'', target = Some ''spec.md'', status = Completed,
     startTime = 8000, endTime = Some 9000\<rparr>"

definition todo_open :: TodoItem where
  "todo_open = \<lparr>content = ''write the parser'', todo_status = InProgress\<rparr>"

definition glob_recent :: ToolEntry where
  "glob_recent = \<lparr>name = ''Glob'', target = None, status = Completed,
     startTime = 9000, endTime = Some 9500\<rparr>"

definition edit_untimed :: ToolEntry where
  "edit_untimed = \<lparr>name = ''Edit'', target = Some ''a.ts'', status = Completed,
     startTime = 9600, endTime = None\<rparr>"

definition named :: "string \<Rightarrow> ToolEntry" where
  "named n = \<lparr>name = n, target = None, status = Running, startTime = 0, endTime = None\<rparr>"

text \<open>
  The base table of the test file, an empty override, a rounding (upwards), a fresh tracker
  and two events, one of a kind the tracker does not know.
\<close>

definition basePricing :: PricingConfig where
  "basePricing =
     \<lparr>sonnet = \<lparr>inputPricePerMillion = 3, outputPricePerMillion = 15\<rparr>, opus = \<lparr>inputPricePerMillion = 15, outputPricePerMillion = 75\<rparr>,
      haiku = \<lparr>inputPricePerMillion = 1 / 4, outputPricePerMillion = 5 / 4\<rparr>, lastUpdated = ''2025-01-01''\<rparr>"

definition noOverride :: PartialPricing where
  "noOverride = \<lparr>sonnet_opt = None, opus_opt = None, haiku_opt = None, lastUpdated_opt = None\<rparr>"

definition ceilTokens :: "rat \<Rightarrow> nat" where
  "ceilTokens q = nat \<lceil>q\<rceil>"

definition freshTracker :: CostTracker where
  "freshTracker = \<lparr>inputTokens = 0, outputTokens = 0, model = ''sonnet'', pricing = basePricing\<rparr>"

definition toolEvent :: "string HudEvent" where
  "toolEvent = \<lparr>eventKind = ''PostToolUse'', toolName = Some ''Read'', input = Some ''{}'',
     response = Some ''0123456789'', prompt = None\<rparr>"

definition stopEvent :: "string HudEvent" where
  "stopEvent = \<lparr>eventKind = ''Stop'', toolName = None, input = None, response = None, prompt = None\<rparr>"

section \<open>Rounding to a double\<close>

lemma pow2_powi: "pow2 k = 2 powi k"
  by (simp add: pow2_def power_int_def inverse_eq_divide power_one_over)

lemma pow2_pos: "0 < pow2 k"
  by (simp add: pow2_powi)

lemma pow2_add: "pow2 (i + j) = pow2 i * pow2 j"
  by (simp add: pow2_powi power_int_add)

lemma pow2_nat: "pow2 (int n) = 2 ^ n"
  by (simp add: pow2_powi)

lemma pow2_mono: "i \<le> j \<Longrightarrow> pow2 i \<le> pow2 j"
  by (simp add: pow2_powi power_int_increasing)

lemma pow2_strict_mono: "i < j \<Longrightarrow> pow2 i < pow2 j"
  by (simp add: pow2_powi power_int_strict_increasing)

lemma pow2_less_iff: "pow2 i < pow2 j \<longleftrightarrow> i < j"
  using pow2_strict_mono [of i j] pow2_mono [of j i] by (cases "i < j") auto

lemma bitlen_bounds:
  "0 < a \<Longrightarrow> 0 < bitlen a \<and> 2 ^ nat (bitlen a - 1) \<le> a \<and> a < 2 ^ nat (bitlen a)"
proof (induction a rule: bitlen.induct)
  case (1 a)
  show ?case
  proof (cases "a div 2 = 0")
    case True
    with "1.prems" have a1: "a = 1" by presburger
    have "bitlen 1 = 1" by (simp add: bitlen.simps [of 1] bitlen.simps [of 0])
    with a1 show ?thesis by simp
  next
    case False
    with "1.prems" have pos: "0 < a div 2" by presburger
    from "1.IH" "1.prems" pos
    have ih: "0 < bitlen (a div 2)" "2 ^ nat (bitlen (a div 2) - 1) \<le> a div 2"
      "a div 2 < 2 ^ nat (bitlen (a div 2))" by auto
    define L where "L = bitlen (a div 2)"
    have bl: "bitlen a = 1 + L" using "1.prems" by (simp add: bitlen.simps [of a] L_def)
    have n1: "nat (1 + L - 1) = Suc (nat (L - 1))" using ih(1) by (simp add: L_def)
    have n2: "nat (1 + L) = Suc (nat L)" using ih(1) by (simp add: L_def)
    have half: "2 * (a div 2) \<le> a" "a \<le> 2 * (a div 2) + 1" by presburger+
    have lo: "(2::int) ^ Suc (nat (L - 1)) \<le> a"
      using ih(2) half(1) unfolding L_def [symmetric] by simp
    have hi: "a < (2::int) ^ Suc (nat L)"
      using ih(3) half(2) unfolding L_def [symmetric] by simp
    show ?thesis unfolding bl n1 n2 using lo hi ih(1) by (simp add: L_def)
  qed
qed


lemma bitlen_pow2:
  assumes "0 < a"
  shows "pow2 (bitlen a - 1) \<le> of_int a" and "of_int a < pow2 (bitlen a)"
proof -
  from bitlen_bounds [OF assms]
  have b: "0 < bitlen a" "2 ^ nat (bitlen a - 1) \<le> a" "a < 2 ^ nat (bitlen a)" by auto
  have "(of_int (2 ^ nat (bitlen a - 1)) :: rat) \<le> of_int a"
    using b(2) by (simp only: of_int_le_iff)
  then show "pow2 (bitlen a - 1) \<le> of_int a" using b(1) by (simp add: pow2_def)
  have "(of_int a :: rat) < of_int (2 ^ nat (bitlen a))"
    using b(3) by (simp only: of_int_less_iff)
  then show "of_int a < pow2 (bitlen a)" using b(1) by (simp add: pow2_def)
qed

lemma ilog2_bounds:
  assumes "0 < x"
  shows "pow2 (ilog2 x) \<le> x" and "x < pow2 (ilog2 x + 1)"
proof -
  obtain a b where q: "quotient_of x = (a, b)" by force
  have bpos: "0 < b" using q by (rule quotient_of_denom_pos)
  have xab: "x = of_int a / of_int b" using q by (rule quotient_of_div)
  have apos: "0 < a"
    using assms bpos unfolding xab by (simp add: zero_less_divide_iff)
  define k where "k = bitlen a - bitlen b"
  have B: "(0::rat) < of_int b" using bpos by simp
  have up: "x < pow2 (k + 1)"
  proof -
    have "pow2 (bitlen a) = pow2 (k + 1) * pow2 (bitlen b - 1)"
      unfolding pow2_add [symmetric] k_def by simp
    also have "\<dots> \<le> pow2 (k + 1) * of_int b"
      using bitlen_pow2(1) [OF bpos] pow2_pos [of "k + 1"] by simp
    finally have "of_int a < pow2 (k + 1) * of_int b"
      using bitlen_pow2(2) [OF apos] by simp
    then show ?thesis unfolding xab using B by (simp add: pos_divide_less_eq)
  qed
  have low: "pow2 (k - 1) < x"
  proof -
    have "pow2 (k - 1) * of_int b < pow2 (k - 1) * pow2 (bitlen b)"
      using bitlen_pow2(2) [OF bpos] pow2_pos [of "k - 1"] by simp
    also have "\<dots> = pow2 (bitlen a - 1)"
      unfolding pow2_add [symmetric] k_def by simp
    finally have "pow2 (k - 1) * of_int b < of_int a"
      using bitlen_pow2(1) [OF apos] by simp
    then show ?thesis unfolding xab using B by (simp add: pos_less_divide_eq)
  qed
  have il: "ilog2 x = (if pow2 k \<le> x then k else k - 1)"
    by (simp add: ilog2_def q k_def Let_def)
  show "pow2 (ilog2 x) \<le> x" using low unfolding il by simp
  show "x < pow2 (ilog2 x + 1)" using up unfolding il by (simp add: not_le)
qed

lemma roundTiesToEven_error: "\<bar>of_int (roundTiesToEven y) - y\<bar> \<le> 1 / 2"
proof -
  have fl: "of_int \<lfloor>y\<rfloor> \<le> y" "y < of_int \<lfloor>y\<rfloor> + 1" by linarith+
  then show ?thesis
    by (auto simp add: roundTiesToEven_def Let_def abs_le_iff)
qed

lemma roundTiesToEven_of_int [simp]: "roundTiesToEven (of_int n) = n"
  by (simp add: roundTiesToEven_def)

lemma fl_error:
  assumes "x \<noteq> 0"
  shows "\<bar>fl x - x\<bar> \<le> pow2 (ilog2 \<bar>x\<bar> - 53)" and "\<bar>fl x - x\<bar> \<le> \<bar>x\<bar> / 2 ^ 53"
proof -
  define u where "u = pow2 (ilog2 \<bar>x\<bar> - 52)"
  define m where "m = roundTiesToEven (\<bar>x\<bar> / u)"
  have upos: "0 < u" by (simp add: u_def pow2_pos)
  have flx: "fl x = sgn x * of_int m * u"
    using assms by (simp add: fl_def Let_def u_def m_def)
  have xs: "x = sgn x * (\<bar>x\<bar> / u) * u" using upos by (simp add: mult_sgn_abs)
  have "fl x - x = sgn x * u * (of_int m - \<bar>x\<bar> / u)"
    unfolding flx by (subst (2) xs) (simp add: algebra_simps)
  then have "\<bar>fl x - x\<bar> = u * \<bar>of_int m - \<bar>x\<bar> / u\<bar>"
    using assms upos by (simp add: abs_mult abs_sgn_eq)
  also have "\<dots> \<le> u * (1 / 2)"
    using roundTiesToEven_error [of "\<bar>x\<bar> / u"] upos unfolding m_def
    by (intro mult_left_mono) simp_all
  also have "u * (1 / 2) = pow2 (ilog2 \<bar>x\<bar> - 53)"
  proof -
    have "pow2 (ilog2 \<bar>x\<bar> - 52) = pow2 (ilog2 \<bar>x\<bar> - 53) * pow2 1"
      unfolding pow2_add [symmetric] by simp
    then show ?thesis by (simp add: u_def pow2_def)
  qed
  finally show e1: "\<bar>fl x - x\<bar> \<le> pow2 (ilog2 \<bar>x\<bar> - 53)" .
  have "pow2 (ilog2 \<bar>x\<bar> - 53) = pow2 (ilog2 \<bar>x\<bar>) * pow2 (- 53)"
    unfolding pow2_add [symmetric] by simp
  also have "\<dots> \<le> \<bar>x\<bar> * pow2 (- 53)"
    using ilog2_bounds(1) [of "\<bar>x\<bar>"] assms pow2_pos [of "- 53"] by simp
  also have "\<dots> = \<bar>x\<bar> / 2 ^ 53" by (simp add: pow2_def)
  finally show "\<bar>fl x - x\<bar> \<le> \<bar>x\<bar> / 2 ^ 53" using e1 by linarith
qed


lemma fl_samples:
  "fl (1 / 10) = 3602879701896397 / 36028797018963968"
  "fl 9007199254740993 = 9007199254740992"
  "fl 9007199254740995 = 9007199254740996"
  "fl (- 1 / 3) = - 6004799503160661 / 18014398509481984"
  by code_simp+

lemma fl_rel_error: "\<bar>fl x - x\<bar> \<le> \<bar>x\<bar> / 2 ^ 53"
proof (cases "x = 0")
  case True
  then show ?thesis by (simp add: fl_def)
next
  case False
  then show ?thesis by (rule fl_error(2))
qed

lemma fl_of_int:
  assumes "\<bar>n\<bar> < 2 ^ 53"
  shows "fl (of_int n) = of_int n"
proof (cases "n = 0")
  case True
  then show ?thesis by (simp add: fl_def)
next
  case False
  define x :: rat where "x = of_int n"
  define e where "e = ilog2 \<bar>x\<bar>"
  have xpos: "0 < \<bar>x\<bar>" using False by (simp add: x_def)
  have ax: "\<bar>x\<bar> = of_int \<bar>n\<bar>" by (simp add: x_def)
  have "\<bar>x\<bar> < of_int (2 ^ 53)" unfolding ax using assms by (simp only: of_int_less_iff)
  then have "\<bar>x\<bar> < pow2 53" by (simp add: pow2_def)
  with ilog2_bounds(1) [OF xpos] have "pow2 e < pow2 53" unfolding e_def by linarith
  then have e52: "e \<le> 52" by (simp add: pow2_less_iff)
  define j where "j = nat (52 - e)"
  have je: "52 - e = int j" using e52 by (simp add: j_def)
  have u: "pow2 (e - 52) = 1 / 2 ^ j"
  proof -
    have "pow2 (e - 52) * pow2 (int j) = 1"
      unfolding pow2_add [symmetric] je [symmetric] by (simp add: pow2_def)
    then show ?thesis by (simp add: pow2_nat field_simps)
  qed
  have q: "\<bar>x\<bar> / pow2 (e - 52) = of_int (\<bar>n\<bar> * 2 ^ j)" by (simp add: u ax)
  have m: "roundTiesToEven (\<bar>x\<bar> / pow2 (e - 52)) = \<bar>n\<bar> * 2 ^ j"
    unfolding q by (rule roundTiesToEven_of_int)
  have "fl x = sgn x * of_int (roundTiesToEven (\<bar>x\<bar> / pow2 (e - 52))) * pow2 (e - 52)"
    using xpos by (simp add: fl_def Let_def e_def)
  also have "\<dots> = sgn x * of_int (\<bar>n\<bar> * 2 ^ j) * pow2 (e - 52)"
    by (simp only: m)
  also have "\<dots> = sgn x * of_int (\<bar>n\<bar> * 2 ^ j) * (1 / 2 ^ j)"
    by (simp only: u)
  also have "\<dots> = sgn x * \<bar>x\<bar>" by (simp add: ax)
  also have "\<dots> = x" by (simp add: mult_sgn_abs)
  finally show ?thesis by (simp add: x_def)
qed

lemma Math_round_close:
  assumes "\<bar>a - b\<bar> < 1"
  shows "\<bar>Math_round a - Math_round b\<bar> \<le> 1"
proof -
  have shift: "\<lfloor>c + 1 / 2 + of_int 1\<rfloor> = \<lfloor>c + 1 / 2\<rfloor> + 1" for c :: rat
    by (simp only: floor_add_int)
  from assms have ab: "a \<le> b + 1" "b \<le> a + 1" by linarith+
  have "\<lfloor>a + 1 / 2\<rfloor> \<le> \<lfloor>b + 1 / 2 + of_int 1\<rfloor>"
    using ab(1) by (intro floor_mono) simp
  moreover have "\<lfloor>b + 1 / 2\<rfloor> \<le> \<lfloor>a + 1 / 2 + of_int 1\<rfloor>"
    using ab(2) by (intro floor_mono) simp
  ultimately have "\<lfloor>a + 1 / 2\<rfloor> \<le> \<lfloor>b + 1 / 2\<rfloor> + 1" "\<lfloor>b + 1 / 2\<rfloor> \<le> \<lfloor>a + 1 / 2\<rfloor> + 1"
    unfolding shift by simp_all
  then show ?thesis unfolding Math_round_def by linarith
qed

lemma double_percent_close:
  assumes "0 \<le> x" and "100 * x \<le> 2 ^ 51"
  shows "\<bar>Math_round (fl (fl x * 100)) - Math_round (100 * x)\<bar> \<le> 1"
proof -
  define d where "d = fl x - x"
  define y where "y = fl x * 100"
  have d: "\<bar>d\<bar> \<le> x / 2 ^ 53" using fl_rel_error [of x] assms(1) by (simp add: d_def)
  have yx: "y - 100 * x = 100 * d" by (simp add: y_def d_def)
  have ay: "\<bar>y\<bar> \<le> 100 * x + 100 * \<bar>d\<bar>"
  proof -
    have "y = 100 * x + 100 * d" using yx by simp
    then show ?thesis using assms(1) by (simp add: abs_le_iff) linarith
  qed
  have e2: "\<bar>fl y - y\<bar> \<le> (100 * x + 100 * \<bar>d\<bar>) / 2 ^ 53"
  proof -
    have "\<bar>fl y - y\<bar> \<le> \<bar>y\<bar> / 2 ^ 53" by (rule fl_rel_error)
    also have "\<dots> \<le> (100 * x + 100 * \<bar>d\<bar>) / 2 ^ 53"
      using ay by (simp add: divide_right_mono)
    finally show ?thesis .
  qed
  have small: "100 * x / 2 ^ 53 \<le> 1 / 4"
  proof -
    have "100 * x / 2 ^ 53 \<le> 2 ^ 51 / 2 ^ 53" using assms(2) by (simp add: divide_right_mono)
    then show ?thesis by simp
  qed
  have d100: "100 * \<bar>d\<bar> \<le> 1 / 4"
  proof -
    have "100 * \<bar>d\<bar> \<le> 100 * (x / 2 ^ 53)" using d by simp
    then show ?thesis using small by simp
  qed
  have e2': "\<bar>fl y - y\<bar> \<le> 1 / 4 + 1 / 4"
  proof -
    have "(100 * x + 100 * \<bar>d\<bar>) / 2 ^ 53 = 100 * x / 2 ^ 53 + 100 * \<bar>d\<bar> / 2 ^ 53"
      by (simp add: add_divide_distrib)
    moreover have "100 * \<bar>d\<bar> / 2 ^ 53 \<le> 100 * \<bar>d\<bar>"
      by (simp add: divide_le_eq)
    ultimately show ?thesis using e2 small d100 by linarith
  qed
  have "\<bar>fl y - 100 * x\<bar> \<le> \<bar>fl y - y\<bar> + \<bar>y - 100 * x\<bar>" by simp
  also have "\<dots> \<le> (1 / 4 + 1 / 4) + 1 / 4"
    using e2' d100 unfolding yx by (simp add: abs_mult)
  finally have "\<bar>fl y - 100 * x\<bar> < 1" by simp
  then show ?thesis unfolding y_def by (rule Math_round_close)
qed

section \<open>Facts about the helpers\<close>

lemma percent_95: "getContextPercent (snapshot 190000 200000 ts ags tds) = 95"
  unfolding snapshot_def getContextPercent_def usage_of_def size_of_def totalTokens_def
  by code_simp

lemma percent_10: "getContextPercent (snapshot 20000 200000 ts ags tds) = 10"
  unfolding snapshot_def getContextPercent_def usage_of_def size_of_def totalTokens_def
  by code_simp

lemma d95: "numToString 95 = ''95''"
  by code_simp

lemma slice_last3_last: "xs \<noteq> [] \<Longrightarrow> slice_last3 xs \<noteq> [] \<and> last (slice_last3 xs) = last xs"
  by (cases xs rule: rev_cases) (simp_all add: slice_last3_def)

lemma find_None_filter: "find P xs = None \<longleftrightarrow> filter P xs = []"
  by (induction xs) auto

lemma getToolState_not_Success: "getToolState t \<noteq> Success"
  by (simp add: getToolState_def Let_def)

lemma getToolMode_not_SUCCESS: "getToolMode t \<noteq> SUCCESS"
  by (simp add: getToolMode_def Let_def)

lemma complete_not_all_done: "n @ '' complete!'' \<noteq> ''All tasks done!''"
proof
  assume "n @ '' complete!'' = ''All tasks done!''"
  then have "rev (n @ '' complete!'') = rev ''All tasks done!''" by (rule arg_cong)
  then show False by simp
qed

lemma done_not_all_complete: "n @ '' done!'' \<noteq> ''All tasks complete!''"
proof
  assume "n @ '' done!'' = ''All tasks complete!''"
  then have "rev (n @ '' done!'') = rev ''All tasks complete!''" by (rule arg_cong)
  then show False by simp
qed

lemma startsWith_iff: "startsWith s p \<longleftrightarrow> (\<exists>b. s = p @ b)"
  by (induction s p rule: startsWith.induct) auto

lemma str_includes_iff: "str_includes s p \<longleftrightarrow> (\<exists>a b. s = a @ p @ b)"
proof (induction s)
  case Nil
  then show ?case by auto
next
  case (Cons c cs)
  show ?case
  proof
    assume "str_includes (c # cs) p"
    then consider "startsWith (c # cs) p" | "str_includes cs p" by auto
    then show "\<exists>a b. c # cs = a @ p @ b"
    proof cases
      case 1
      then obtain b where "c # cs = p @ b" by (auto simp: startsWith_iff)
      then have "c # cs = [] @ p @ b" by simp
      then show ?thesis by blast
    next
      case 2
      then obtain a b where "cs = a @ p @ b" using Cons.IH by blast
      then have "c # cs = (c # a) @ p @ b" by simp
      then show ?thesis by blast
    qed
  next
    assume "\<exists>a b. c # cs = a @ p @ b"
    then obtain a b where ab: "c # cs = a @ p @ b" by blast
    show "str_includes (c # cs) p"
    proof (cases a)
      case Nil
      with ab have "startsWith (c # cs) p" by (auto simp: startsWith_iff)
      then show ?thesis by simp
    next
      case (Cons x a')
      with ab have "cs = a' @ p @ b" by simp
      then have "str_includes cs p" using Cons.IH by blast
      then show ?thesis by simp
    qed
  qed
qed

lemma lower_KillShell: "toLowerCase ''KillShell'' = ''killshell''"
  by code_simp

section \<open>Context pressure comes first\<close>

text \<open>
  Claim C1, as amended. Whenever the derived context percentage is at least 90, each of the
  three classifiers returns its pressure state, whatever tools, agents and todos the
  snapshot holds. The two \<^verbatim>\<open>detectActivityState\<close> functions give the detail
  \<^verbatim>\<open>{percent}% context used\<close>; \<^verbatim>\<open>detectMesmericMode\<close> gives \<^verbatim>\<open>{percent}% context\<close>. The
  detail is stated for percentages up to \<open>2\<^sup>5\<^sup>3\<close>, which print as their decimal digits.
\<close>

theorem pressure_overrides:
  assumes "90 \<le> getContextPercent ctx"
  shows "state (detectActivityState now ctx) = Pressure
       \<and> state (detectActivityState_spinner now ctx) = Pressure
       \<and> mode (detectMesmericMode now ctx) = PRESSURE
       \<and> (getContextPercent ctx \<le> 2 ^ 53 \<longrightarrow>
            detectActivityState now ctx =
              \<lparr>state = Pressure,
               detail = numToString (getContextPercent ctx) @ ''% context used'',
               since = None\<rparr>
            \<and> detectActivityState_spinner now ctx =
              \<lparr>state = Pressure,
               detail = numToString (getContextPercent ctx) @ ''% context used'',
               since = None\<rparr>
            \<and> detectMesmericMode now ctx =
              \<lparr>mode = PRESSURE,
               mode_detail = numToString (getContextPercent ctx) @ ''% context''\<rparr>)"
  using assms
  by (simp add: detectActivityState_def detectActivityState_spinner_def detectMesmericMode_def
      Let_def)

theorem pressure_overrides_witness:
  "detectActivityState 2000 (snapshot 190000 200000 [busy_tool] [busy_agent] []) =
     \<lparr>state = Pressure, detail = ''95% context used'', since = None\<rparr>
   \<and> detectActivityState_spinner 2000 (snapshot 190000 200000 [busy_tool] [busy_agent] []) =
     \<lparr>state = Pressure, detail = ''95% context used'', since = None\<rparr>
   \<and> detectMesmericMode 2000 (snapshot 190000 200000 [busy_tool] [busy_agent] []) =
     \<lparr>mode = PRESSURE, mode_detail = ''95% context''\<rparr>"
  using pressure_overrides [of "snapshot 190000 200000 [busy_tool] [busy_agent] []" 2000]
  by (simp add: percent_95 d95)

text \<open>
  The claim as written gives the detail \<^verbatim>\<open>{percent}% context used\<close> to every classifier;
  the wave visualizer's detail at 95 percent is \<^verbatim>\<open>95% context\<close>.
\<close>

theorem pressure_detail_counterexample:
  "90 \<le> getContextPercent (snapshot 190000 200000 [] [] [])
   \<and> mode_detail (detectMesmericMode 0 (snapshot 190000 200000 [] [] []))
       \<noteq> numToString (getContextPercent (snapshot 190000 200000 [] [] [])) @ ''% context used''"
  by (simp add: detectMesmericMode_def Let_def percent_95 d95)

section \<open>A tool that has just completed\<close>

text \<open>
  Claim C2, as amended. Take a snapshot below 90 percent with no running agent and no
  running tool, whose last completed tool ended at \<open>e\<close>. If less than 3000 ms have passed
  since \<open>e\<close>, \<^verbatim>\<open>detectActivityState\<close> of \<^verbatim>\<open>animation-line.ts\<close> returns success with the
  detail \<^verbatim>\<open>{name} complete!\<close> and the wave visualizer returns SUCCESS with \<^verbatim>\<open>Complete!\<close>,
  both ahead of any in-progress todo; from 3000 ms on, both return what their later rules
  give. The spinner classifier tries the todos first: with a todo in progress it returns
  progress with the detail \<^verbatim>\<open>{completed}/{total} tasks\<close>; without one it returns success
  with \<^verbatim>\<open>{name} done!\<close> when less than 2000 ms have passed, and from 2000 ms on what its
  later rules give. So the spinner's result is \<^verbatim>\<open>{name} done!\<close> for no name when a todo is
  in progress or 2000 ms have passed.
\<close>

theorem recent_completion_success:
  assumes "getContextPercent ctx < 90"
    and "filter (\<lambda>a. agent_status a = Running) (agents (transcript ctx)) = []"
    and "filter (\<lambda>t. status t = Running) (tools (transcript ctx)) = []"
    and "finished = filter (\<lambda>t. status t = Completed) (tools (transcript ctx))"
    and "finished \<noteq> []"
    and "endTime (last finished) = Some e"
  shows "detectActivityState now ctx =
           (if now - e < 3000 then
              \<lparr>state = Success, detail = name (last finished) @ '' complete!'', since = None\<rparr>
            else if todos (transcript ctx) \<noteq> []
                    \<and> list_all (\<lambda>t. todo_status t = Done) (todos (transcript ctx)) then
              \<lparr>state = Success, detail = ''All tasks done!'', since = None\<rparr>
            else
              (case find (\<lambda>t. todo_status t = InProgress) (todos (transcript ctx)) of
                 Some t \<Rightarrow> \<lparr>state = Thinking, detail = truncate (content t) 25, since = None\<rparr>
               | None \<Rightarrow>
                   (if (case endTime (last (tools (transcript ctx))) of
                          None \<Rightarrow> False
                        | Some l \<Rightarrow> now - l < 10000)
                    then \<lparr>state = Thinking, detail = ''Processing...'', since = None\<rparr>
                    else \<lparr>state = Idle, detail = ''Ready'', since = None\<rparr>)))
       \<and> detectMesmericMode now ctx =
           (if now - e < 3000 then \<lparr>mode = SUCCESS, mode_detail = ''Complete!''\<rparr>
            else if todos (transcript ctx) \<noteq> []
                    \<and> list_all (\<lambda>t. todo_status t = Done) (todos (transcript ctx)) then
              \<lparr>mode = SUCCESS, mode_detail = ''All tasks done!''\<rparr>
            else
              (case find (\<lambda>t. todo_status t = InProgress) (todos (transcript ctx)) of
                 Some t \<Rightarrow> \<lparr>mode = BUILD, mode_detail = truncate (content t) 25\<rparr>
               | None \<Rightarrow>
                   (if (case endTime (last (tools (transcript ctx))) of
                          None \<Rightarrow> False
                        | Some l \<Rightarrow> now - l < 10000)
                    then \<lparr>mode = IDLE, mode_detail = ''Thinking...''\<rparr>
                    else \<lparr>mode = IDLE, mode_detail = ''Ready''\<rparr>)))
       \<and> (find (\<lambda>t. todo_status t = InProgress) (todos (transcript ctx)) = None \<longrightarrow>
            detectActivityState_spinner now ctx =
              (if now - e < 2000 then
                 \<lparr>state = Success, detail = name (last finished) @ '' done!'', since = None\<rparr>
               else if todos (transcript ctx) \<noteq> []
                       \<and> list_all (\<lambda>t. todo_status t = Done) (todos (transcript ctx)) then
                 \<lparr>state = Success, detail = ''All tasks complete!'', since = None\<rparr>
               else \<lparr>state = Thinking, detail = ''Processing...'', since = None\<rparr>))
       \<and> (find (\<lambda>t. todo_status t = InProgress) (todos (transcript ctx)) \<noteq> None \<longrightarrow>
            state (detectActivityState_spinner now ctx) = Progress
            \<and> since (detectActivityState_spinner now ctx) = None
            \<and> (length (todos (transcript ctx)) < 2 ^ 32 \<longrightarrow>
                 detail (detectActivityState_spinner now ctx) =
                   numToString (int (length (filter (\<lambda>t. todo_status t = Done)
                                               (todos (transcript ctx)))))
                   @ ''/'' @ numToString (int (length (todos (transcript ctx)))) @ '' tasks''))
       \<and> (2000 \<le> now - e
            \<or> find (\<lambda>t. todo_status t = InProgress) (todos (transcript ctx)) \<noteq> None \<longrightarrow>
            (\<forall>n. detectActivityState_spinner now ctx \<noteq>
                   \<lparr>state = Success, detail = n @ '' done!'', since = None\<rparr>))"
proof -
  from assms(2) have ag: "find (\<lambda>a. agent_status a = Running) (agents (transcript ctx)) = None"
    by (simp add: find_None_filter)
  have pc: "\<not> 90 \<le> getContextPercent ctx" using assms(1) by simp
  have ts: "tools (transcript ctx) \<noteq> []" using assms(4,5) by auto
  note sl = slice_last3_last [OF assms(5)]
  have a: "detectActivityState now ctx =
           (if now - e < 3000 then
              \<lparr>state = Success, detail = name (last finished) @ '' complete!'', since = None\<rparr>
            else if todos (transcript ctx) \<noteq> []
                    \<and> list_all (\<lambda>t. todo_status t = Done) (todos (transcript ctx)) then
              \<lparr>state = Success, detail = ''All tasks done!'', since = None\<rparr>
            else
              (case find (\<lambda>t. todo_status t = InProgress) (todos (transcript ctx)) of
                 Some t \<Rightarrow> \<lparr>state = Thinking, detail = truncate (content t) 25, since = None\<rparr>
               | None \<Rightarrow>
                   (if (case endTime (last (tools (transcript ctx))) of
                          None \<Rightarrow> False
                        | Some l \<Rightarrow> now - l < 10000)
                    then \<lparr>state = Thinking, detail = ''Processing...'', since = None\<rparr>
                    else \<lparr>state = Idle, detail = ''Ready'', since = None\<rparr>)))"
    using pc ag ts assms(3,5,6) unfolding assms(4)
    by (simp add: detectActivityState_def Let_def)
  have b: "detectMesmericMode now ctx =
           (if now - e < 3000 then \<lparr>mode = SUCCESS, mode_detail = ''Complete!''\<rparr>
            else if todos (transcript ctx) \<noteq> []
                    \<and> list_all (\<lambda>t. todo_status t = Done) (todos (transcript ctx)) then
              \<lparr>mode = SUCCESS, mode_detail = ''All tasks done!''\<rparr>
            else
              (case find (\<lambda>t. todo_status t = InProgress) (todos (transcript ctx)) of
                 Some t \<Rightarrow> \<lparr>mode = BUILD, mode_detail = truncate (content t) 25\<rparr>
               | None \<Rightarrow>
                   (if (case endTime (last (tools (transcript ctx))) of
                          None \<Rightarrow> False
                        | Some l \<Rightarrow> now - l < 10000)
                    then \<lparr>mode = IDLE, mode_detail = ''Thinking...''\<rparr>
                    else \<lparr>mode = IDLE, mode_detail = ''Ready''\<rparr>)))"
    using pc ag ts assms(3,5,6) unfolding assms(4)
    by (simp add: detectMesmericMode_def Let_def)
  have c: "find (\<lambda>t. todo_status t = InProgress) (todos (transcript ctx)) = None \<longrightarrow>
            detectActivityState_spinner now ctx =
              (if now - e < 2000 then
                 \<lparr>state = Success, detail = name (last finished) @ '' done!'', since = None\<rparr>
               else if todos (transcript ctx) \<noteq> []
                       \<and> list_all (\<lambda>t. todo_status t = Done) (todos (transcript ctx)) then
                 \<lparr>state = Success, detail = ''All tasks complete!'', since = None\<rparr>
               else \<lparr>state = Thinking, detail = ''Processing...'', since = None\<rparr>)"
    using pc ag ts assms(3,6) sl unfolding assms(4)
    by (simp add: detectActivityState_spinner_def Let_def)
  have d: "find (\<lambda>t. todo_status t = InProgress) (todos (transcript ctx)) \<noteq> None \<longrightarrow>
            state (detectActivityState_spinner now ctx) = Progress
            \<and> since (detectActivityState_spinner now ctx) = None
            \<and> (length (todos (transcript ctx)) < 2 ^ 32 \<longrightarrow>
                 detail (detectActivityState_spinner now ctx) =
                   numToString (int (length (filter (\<lambda>t. todo_status t = Done)
                                               (todos (transcript ctx)))))
                   @ ''/'' @ numToString (int (length (todos (transcript ctx)))) @ '' tasks'')"
    using pc ag assms(3)
    by (auto simp add: detectActivityState_spinner_def Let_def)
  have e: "detectActivityState_spinner now ctx \<noteq>
             \<lparr>state = Success, detail = n @ '' done!'', since = None\<rparr>"
    if "2000 \<le> now - e
        \<or> find (\<lambda>t. todo_status t = InProgress) (todos (transcript ctx)) \<noteq> None" for n
  proof (cases "find (\<lambda>t. todo_status t = InProgress) (todos (transcript ctx))")
    case None
    with that have "\<not> now - e < 2000" by simp
    with c None done_not_all_complete [of n] show ?thesis by simp
  next
    case (Some t)
    with d have "state (detectActivityState_spinner now ctx) = Progress" by simp
    then show ?thesis by auto
  qed
  from a b c d e show ?thesis by blast
qed

theorem recent_completion_success_witness:
  "detectActivityState 10000 (snapshot 20000 200000 [read_done] [] [todo_open]) =
     \<lparr>state = Success, detail = ''Read complete!'', since = None\<rparr>
   \<and> detectMesmericMode 10000 (snapshot 20000 200000 [read_done] [] [todo_open]) =
     \<lparr>mode = SUCCESS, mode_detail = ''Complete!''\<rparr>
   \<and> detectActivityState_spinner 10000 (snapshot 20000 200000 [read_done] [] []) =
     \<lparr>state = Success, detail = ''Read done!'', since = None\<rparr>
   \<and> state (detectActivityState_spinner 10000 (snapshot 20000 200000 [read_done] [] [todo_open]))
     = Progress
   \<and> detectActivityState 11500 (snapshot 20000 200000 [read_done] [] []) =
     \<lparr>state = Success, detail = ''Read complete!'', since = None\<rparr>
   \<and> detectActivityState_spinner 11500 (snapshot 20000 200000 [read_done] [] []) =
     \<lparr>state = Thinking, detail = ''Processing...'', since = None\<rparr>
   \<and> detectActivityState 12500 (snapshot 20000 200000 [read_done] [] []) =
     \<lparr>state = Thinking, detail = ''Processing...'', since = None\<rparr>
   \<and> detectMesmericMode 12500 (snapshot 20000 200000 [read_done] [] []) =
     \<lparr>mode = IDLE, mode_detail = ''Thinking...''\<rparr>"
  using recent_completion_success
          [of "snapshot 20000 200000 [read_done] [] [todo_open]" "[read_done]" 9000 10000]
        recent_completion_success
          [of "snapshot 20000 200000 [read_done] [] []" "[read_done]" 9000 10000]
        recent_completion_success
          [of "snapshot 20000 200000 [read_done] [] []" "[read_done]" 9000 11500]
        recent_completion_success
          [of "snapshot 20000 200000 [read_done] [] []" "[read_done]" 9000 12500]
  by (simp add: percent_10) (simp add: snapshot_def read_done_def todo_open_def)

text \<open>
  The claim as written gives the recent completion priority over an in-progress todo in
  every variant; the spinner classifier returns progress for a tool that ended one second
  ago when a todo is in progress.
\<close>

theorem recent_completion_counterexample:
  "getContextPercent (snapshot 20000 200000 [read_done] [] [todo_open]) < 90
   \<and> filter (\<lambda>t. status t = Running) [read_done] = []
   \<and> endTime (last (filter (\<lambda>t. status t = Completed) [read_done])) = Some 9000
   \<and> (10000 :: int) - 9000 < 2000
   \<and> detectActivityState_spinner 10000 (snapshot 20000 200000 [read_done] [] [todo_open]) =
       \<lparr>state = Progress, detail = ''0/1 tasks'', since = None\<rparr>"
  unfolding detectActivityState_spinner_def Let_def percent_10
  unfolding snapshot_def read_done_def todo_open_def
  by code_simp

section \<open>Tool names\<close>

text \<open>
  Claim C3, as amended. \<^verbatim>\<open>getToolState\<close> of \<^verbatim>\<open>animation-line.ts\<close> and \<^verbatim>\<open>getToolMode\<close> of
  the wave visualizer compute exactly the keyword table of the specification on the
  lower-cased tool name, earlier rows winning and the fallback being thinking/build. The
  spinner's \<^verbatim>\<open>getToolState\<close> computes a different table: \<^verbatim>\<open>ls\<close> is a substring test there
  and \<^verbatim>\<open>notebook\<close> is not a keyword.
\<close>

theorem tool_name_mapping:
  "getToolState tool = fst (classifyTool (name tool))
   \<and> getToolMode tool = snd (classifyTool (name tool))
   \<and> getToolState_spinner tool = firstMatch (toLowerCase (name tool)) toolRules_spinner Thinking"
  by (simp add: getToolState_def getToolMode_def getToolState_spinner_def classifyTool_def
      toolRules_def toolRules_spinner_def Let_def)

theorem tool_name_mapping_witness:
  "getToolState (named ''KillShell'') = Bash \<and> getToolMode (named ''KillShell'') = CRUNCH
   \<and> getToolState_spinner (named ''KillShell'') = Reading"
  using tool_name_mapping [of "named ''KillShell''"]
  by (simp add: named_def classifyTool_def toolRules_def toolRules_spinner_def lower_KillShell)

text \<open>
  The claim as written covers the spinner's \<^verbatim>\<open>getToolState\<close> too; there the tool
  \<^verbatim>\<open>KillShell\<close> is classified as reading, because its name contains \<^verbatim>\<open>ls\<close>, where the
  stated mapping gives bash.
\<close>

theorem tool_name_mapping_counterexample:
  "getToolState_spinner (named ''KillShell'') = Reading
   \<and> fst (classifyTool ''KillShell'') = Bash"
  by (simp add: getToolState_spinner_def named_def classifyTool_def toolRules_def Let_def
      lower_KillShell)

section \<open>Truncation\<close>

lemma truncate_short: "int (length text) \<le> maxLen \<Longrightarrow> truncate text maxLen = text"
  by (simp add: truncate_def)

lemma truncate_long:
  assumes "maxLen < int (length text)" and "3 \<le> maxLen"
  shows "truncate text maxLen = take (nat (maxLen - 3)) text @ ''...''"
    and "int (length (truncate text maxLen)) = maxLen"
  using assms by (simp_all add: truncate_def slice0_def min_def)

text \<open>
  Claim C4. With a maximum of 25 or 30 (the two values the classifiers pass), a string longer
  than the maximum is cut to its first \<open>max - 3\<close> characters followed by three dots, which
  makes exactly \<open>max\<close> characters; any other string comes back unchanged. A string of 30
  characters cut at 25 has 25 characters and ends in three dots, and a string of 10
  characters is returned as it is.
\<close>

theorem truncate_exact:
  assumes "maxLen = 25 \<or> maxLen = 30"
  shows "(maxLen < int (length text) \<longrightarrow>
            truncate text maxLen = take (nat (maxLen - 3)) text @ ''...''
            \<and> int (length (truncate text maxLen)) = maxLen)
       \<and> (int (length text) \<le> maxLen \<longrightarrow> truncate text maxLen = text)
       \<and> (length text = 30 \<longrightarrow>
            length (truncate text 25) = 25 \<and> drop 22 (truncate text 25) = ''...'')
       \<and> (length text = 10 \<longrightarrow> truncate text 25 = text)"
proof -
  have three: "3 \<le> maxLen" using assms by auto
  have long: "maxLen < int (length text) \<longrightarrow>
      truncate text maxLen = take (nat (maxLen - 3)) text @ ''...''
      \<and> int (length (truncate text maxLen)) = maxLen"
    using truncate_long [of maxLen "text"] three by blast
  have short: "int (length text) \<le> maxLen \<longrightarrow> truncate text maxLen = text"
    by (simp add: truncate_short)
  have thirty: "length text = 30 \<longrightarrow>
      length (truncate text 25) = 25 \<and> drop 22 (truncate text 25) = ''...''"
    by (simp add: truncate_def slice0_def)
  have ten: "length text = 10 \<longrightarrow> truncate text 25 = text"
    by (simp add: truncate_def)
  from long short thirty ten show ?thesis by blast
qed

theorem truncate_exact_witness:
  "truncate ''abcdefghijklmnopqrstuvwxyz0123'' 25 = ''abcdefghijklmnopqrstuv...''
   \<and> truncate ''abcdefghij'' 25 = ''abcdefghij''"
  using truncate_exact [of 25 "''abcdefghijklmnopqrstuvwxyz0123''"]
        truncate_exact [of 25 "''abcdefghij''"]
  by simp

section \<open>The empty snapshot\<close>

text \<open>
  Claim C6, as amended. A snapshot below 90 percent with no tools, no agents and no todos
  gets the last fallback of each classifier, always with the detail \<^verbatim>\<open>Waiting for input\<close>:
  sleeping from \<^verbatim>\<open>animation-line.ts\<close>, SLEEP from the wave visualizer, idle from the spinner
  classifier.
\<close>

theorem empty_snapshot_sleeps:
  assumes "getContextPercent ctx < 90"
    and "tools (transcript ctx) = []"
    and "agents (transcript ctx) = []"
    and "todos (transcript ctx) = []"
  shows "detectActivityState now ctx =
           \<lparr>state = Sleeping, detail = ''Waiting for input'', since = None\<rparr>
       \<and> detectMesmericMode now ctx = \<lparr>mode = SLEEP, mode_detail = ''Waiting for input''\<rparr>
       \<and> detectActivityState_spinner now ctx =
           \<lparr>state = Idle, detail = ''Waiting for input'', since = None\<rparr>"
  using assms
  by (simp add: detectActivityState_def detectActivityState_spinner_def detectMesmericMode_def
      Let_def slice_last3_def)

theorem empty_snapshot_sleeps_witness:
  "detectActivityState 0 (snapshot 20000 200000 [] [] []) =
     \<lparr>state = Sleeping, detail = ''Waiting for input'', since = None\<rparr>
   \<and> detectActivityState_spinner 0 (snapshot 20000 200000 [] [] []) =
     \<lparr>state = Idle, detail = ''Waiting for input'', since = None\<rparr>"
  using empty_snapshot_sleeps [of "snapshot 20000 200000 [] [] []" 0]
  by (simp add: percent_10) (simp add: snapshot_def)

text \<open>
  The claim as written has no condition on the context percentage; an empty snapshot at 95
  percent is classified as pressure.
\<close>

theorem empty_snapshot_counterexample:
  "tools (transcript (snapshot 190000 200000 [] [] [])) = []
   \<and> agents (transcript (snapshot 190000 200000 [] [] [])) = []
   \<and> todos (transcript (snapshot 190000 200000 [] [] [])) = []
   \<and> state (detectActivityState 0 (snapshot 190000 200000 [] [] [])) = Pressure
   \<and> state (detectActivityState 0 (snapshot 190000 200000 [] [] [])) \<noteq> Sleeping"
  by (simp add: detectActivityState_def Let_def percent_95) (simp add: snapshot_def)

section \<open>Only the last completed tool is inspected\<close>

text \<open>
  Claim C10. The recency check of \<^verbatim>\<open>animation-line.ts\<close> and of the wave visualizer looks at
  the last completed tool only. When that entry has no end time, or one that lies 3000 ms
  or more in the past, the result is never the recency success (\<^verbatim>\<open>{name} complete!\<close> for any
  name, \<^verbatim>\<open>Complete!\<close> in the visualizer), whatever the end times of earlier completed tools.
  Nothing fails on an absent end time: with nothing running and the context below 90
  percent each of the two classifiers goes on to its later rules (all todos done, todo in
  progress, recent history) and returns what they give.
\<close>

theorem recency_checks_last_only:
  assumes "finished = filter (\<lambda>t. status t = Completed) (tools (transcript ctx))"
    and "finished \<noteq> []"
    and "case endTime (last finished) of None \<Rightarrow> True | Some e \<Rightarrow> 3000 \<le> now - e"
  shows "(\<forall>n. detectActivityState now ctx \<noteq>
              \<lparr>state = Success, detail = n @ '' complete!'', since = None\<rparr>)
       \<and> detectMesmericMode now ctx \<noteq> \<lparr>mode = SUCCESS, mode_detail = ''Complete!''\<rparr>
       \<and> (getContextPercent ctx < 90
            \<and> filter (\<lambda>a. agent_status a = Running) (agents (transcript ctx)) = []
            \<and> filter (\<lambda>t. status t = Running) (tools (transcript ctx)) = []
          \<longrightarrow> detectActivityState now ctx =
               (if todos (transcript ctx) \<noteq> []
                   \<and> list_all (\<lambda>t. todo_status t = Done) (todos (transcript ctx))
                then \<lparr>state = Success, detail = ''All tasks done!'', since = None\<rparr>
                else
                  (case find (\<lambda>t. todo_status t = InProgress) (todos (transcript ctx)) of
                     Some t \<Rightarrow>
                       \<lparr>state = Thinking, detail = truncate (content t) 25, since = None\<rparr>
                   | None \<Rightarrow>
                       (if (case endTime (last (tools (transcript ctx))) of
                              None \<Rightarrow> False
                            | Some e \<Rightarrow> now - e < 10000)
                        then \<lparr>state = Thinking, detail = ''Processing...'', since = None\<rparr>
                        else \<lparr>state = Idle, detail = ''Ready'', since = None\<rparr>)))
            \<and> detectMesmericMode now ctx =
               (if todos (transcript ctx) \<noteq> []
                   \<and> list_all (\<lambda>t. todo_status t = Done) (todos (transcript ctx))
                then \<lparr>mode = SUCCESS, mode_detail = ''All tasks done!''\<rparr>
                else
                  (case find (\<lambda>t. todo_status t = InProgress) (todos (transcript ctx)) of
                     Some t \<Rightarrow> \<lparr>mode = BUILD, mode_detail = truncate (content t) 25\<rparr>
                   | None \<Rightarrow>
                       (if (case endTime (last (tools (transcript ctx))) of
                              None \<Rightarrow> False
                            | Some e \<Rightarrow> now - e < 10000)
                        then \<lparr>mode = IDLE, mode_detail = ''Thinking...''\<rparr>
                        else \<lparr>mode = IDLE, mode_detail = ''Ready''\<rparr>))))"
proof -
  have stale: "\<not> (case endTime (last finished) of None \<Rightarrow> False | Some e \<Rightarrow> now - e < 3000)"
    using assms(3) by (simp split: option.splits)
  have ts: "tools (transcript ctx) \<noteq> []" using assms(1,2) by auto
  have a: "detectActivityState now ctx \<noteq>
      \<lparr>state = Success, detail = n @ '' complete!'', since = None\<rparr>" for n
    using stale complete_not_all_done [of n] getToolState_not_Success
    unfolding assms(1)
    by (simp add: detectActivityState_def Let_def split: option.splits)
  have b: "detectMesmericMode now ctx \<noteq> \<lparr>mode = SUCCESS, mode_detail = ''Complete!''\<rparr>"
    using stale getToolMode_not_SUCCESS
    unfolding assms(1)
    by (simp add: detectMesmericMode_def Let_def split: option.splits)
  have c: "detectActivityState now ctx =
               (if todos (transcript ctx) \<noteq> []
                   \<and> list_all (\<lambda>t. todo_status t = Done) (todos (transcript ctx))
                then \<lparr>state = Success, detail = ''All tasks done!'', since = None\<rparr>
                else
                  (case find (\<lambda>t. todo_status t = InProgress) (todos (transcript ctx)) of
                     Some t \<Rightarrow>
                       \<lparr>state = Thinking, detail = truncate (content t) 25, since = None\<rparr>
                   | None \<Rightarrow>
                       (if (case endTime (last (tools (transcript ctx))) of
                              None \<Rightarrow> False
                            | Some e \<Rightarrow> now - e < 10000)
                        then \<lparr>state = Thinking, detail = ''Processing...'', since = None\<rparr>
                        else \<lparr>state = Idle, detail = ''Ready'', since = None\<rparr>)))"
    if "getContextPercent ctx < 90"
      "filter (\<lambda>a. agent_status a = Running) (agents (transcript ctx)) = []"
      "filter (\<lambda>t. status t = Running) (tools (transcript ctx)) = []"
    using that stale ts unfolding assms(1)
    by (simp add: detectActivityState_def Let_def find_None_filter [symmetric])
  have d: "detectMesmericMode now ctx =
               (if todos (transcript ctx) \<noteq> []
                   \<and> list_all (\<lambda>t. todo_status t = Done) (todos (transcript ctx))
                then \<lparr>mode = SUCCESS, mode_detail = ''All tasks done!''\<rparr>
                else
                  (case find (\<lambda>t. todo_status t = InProgress) (todos (transcript ctx)) of
                     Some t \<Rightarrow> \<lparr>mode = BUILD, mode_detail = truncate (content t) 25\<rparr>
                   | None \<Rightarrow>
                       (if (case endTime (last (tools (transcript ctx))) of
                              None \<Rightarrow> False
                            | Some e \<Rightarrow> now - e < 10000)
                        then \<lparr>mode = IDLE, mode_detail = ''Thinking...''\<rparr>
                        else \<lparr>mode = IDLE, mode_detail = ''Ready''\<rparr>)))"
    if "getContextPercent ctx < 90"
      "filter (\<lambda>a. agent_status a = Running) (agents (transcript ctx)) = []"
      "filter (\<lambda>t. status t = Running) (tools (transcript ctx)) = []"
    using that stale ts unfolding assms(1)
    by (simp add: detectMesmericMode_def Let_def find_None_filter [symmetric])
  from a b c d show ?thesis by blast
qed

theorem recency_checks_last_only_witness:
  "(10000 :: int) - 9500 < 3000
   \<and> detectActivityState 10000 (snapshot 20000 200000 [glob_recent, edit_untimed] [] []) =
       \<lparr>state = Idle, detail = ''Ready'', since = None\<rparr>
   \<and> detectMesmericMode 10000 (snapshot 20000 200000 [glob_recent, edit_untimed] [] []) =
       \<lparr>mode = IDLE, mode_detail = ''Ready''\<rparr>
   \<and> detectActivityState 10000 (snapshot 20000 200000 [glob_recent, edit_untimed] [] []) \<noteq>
       \<lparr>state = Success, detail = ''Glob complete!'', since = None\<rparr>
   \<and> detectActivityState 20000 (snapshot 20000 200000 [glob_recent, read_done] [] [todo_open]) =
       \<lparr>state = Thinking, detail = ''write the parser'', since = None\<rparr>
   \<and> detectMesmericMode 20000 (snapshot 20000 200000 [glob_recent, read_done] [] [todo_open]) =
       \<lparr>mode = BUILD, mode_detail = ''write the parser''\<rparr>"
  using recency_checks_last_only
          [of "[glob_recent, edit_untimed]"
              "snapshot 20000 200000 [glob_recent, edit_untimed] [] []" 10000]
        recency_checks_last_only
          [of "[glob_recent, read_done]"
              "snapshot 20000 200000 [glob_recent, read_done] [] [todo_open]" 20000]
  by (simp add: percent_10)
     (simp add: snapshot_def glob_recent_def edit_untimed_def read_done_def todo_open_def
        truncate_def)

section \<open>The context percentage\<close>

lemma totalTokens_exact:
  assumes "0 \<le> nullish (input_tokens u) 0"
    and "0 \<le> nullish (cache_creation_input_tokens u) 0"
    and "0 \<le> nullish (cache_read_input_tokens u) 0"
    and "nullish (input_tokens u) 0 + nullish (cache_creation_input_tokens u) 0
         + nullish (cache_read_input_tokens u) 0 < 2 ^ 53"
  shows "totalTokens u =
           of_int (nullish (input_tokens u) 0 + nullish (cache_creation_input_tokens u) 0
                   + nullish (cache_read_input_tokens u) 0)"
proof -
  define i where "i = nullish (input_tokens u) 0"
  define c where "c = nullish (cache_creation_input_tokens u) 0"
  define r where "r = nullish (cache_read_input_tokens u) 0"
  have b: "0 \<le> i" "0 \<le> c" "0 \<le> r" "i + c + r < 2 ^ 53"
    using assms by (simp_all add: i_def c_def r_def)
  have s1: "fl (of_int i + of_int c) = of_int i + of_int c"
    using fl_of_int [of "i + c"] b by simp
  have s2: "fl (of_int i + of_int c + of_int r) = of_int i + of_int c + of_int r"
    using fl_of_int [of "i + c + r"] b by simp
  have "totalTokens u = fl (fl (of_int i + of_int c) + of_int r)"
    by (simp add: totalTokens_def js_add_def i_def c_def r_def)
  also have "\<dots> = of_int i + of_int c + of_int r" by (simp only: s1 s2)
  also have "\<dots> = of_int (i + c + r)" by simp
  finally show ?thesis by (simp add: i_def c_def r_def)
qed

text \<open>
  Claim C5, as amended. The derived percentage is 0 whenever the usage object or the window
  size is absent, and also when the size is 0, so no division by zero occurs. Otherwise it
  is \<^verbatim>\<open>Math.round\<close> of the double \<^verbatim>\<open>(totalTokens / size) * 100\<close>: the quotient is rounded to
  a double before it is multiplied by 100. For non-negative token counts with a sum below
  \<open>2\<^sup>5\<^sup>3\<close>, a positive size below \<open>2\<^sup>5\<^sup>3\<close> and a ratio up to \<open>2\<^sup>5\<^sup>1\<close> percent, this value is
  within one of the exactly rounded \<open>100 * total / size\<close> of the specification.
\<close>

theorem context_percent_value:
  "(usage_of ctx = None \<or> size_of ctx = None \<or> size_of ctx = Some 0
      \<longrightarrow> getContextPercent ctx = 0)
   \<and> (\<forall>u s. usage_of ctx = Some u \<and> size_of ctx = Some s \<and> s \<noteq> 0
        \<longrightarrow> getContextPercent ctx
            = Math_round (js_mul (js_div (totalTokens u) (of_int s)) 100))
   \<and> (\<forall>u s. usage_of ctx = Some u \<and> size_of ctx = Some s \<and> 0 < s \<and> s < 2 ^ 53
          \<and> 0 \<le> nullish (input_tokens u) 0
          \<and> 0 \<le> nullish (cache_creation_input_tokens u) 0
          \<and> 0 \<le> nullish (cache_read_input_tokens u) 0
          \<and> nullish (input_tokens u) 0 + nullish (cache_creation_input_tokens u) 0
              + nullish (cache_read_input_tokens u) 0 < 2 ^ 53
          \<and> 100 * (nullish (input_tokens u) 0 + nullish (cache_creation_input_tokens u) 0
              + nullish (cache_read_input_tokens u) 0) \<le> 2 ^ 51 * s
        \<longrightarrow> \<bar>getContextPercent ctx
              - contextPercent_spec (nullish (input_tokens u) 0)
                  (nullish (cache_creation_input_tokens u) 0)
                  (nullish (cache_read_input_tokens u) 0) s\<bar> \<le> 1)"
proof -
  have absent: "usage_of ctx = None \<or> size_of ctx = None \<or> size_of ctx = Some 0
      \<longrightarrow> getContextPercent ctx = 0"
    by (auto simp add: getContextPercent_def split: option.splits)
  have present: "getContextPercent ctx
            = Math_round (js_mul (js_div (totalTokens u) (of_int s)) 100)"
    if "usage_of ctx = Some u" "size_of ctx = Some s" "s \<noteq> 0" for u s
    using that by (simp add: getContextPercent_def)
  have close: "\<bar>getContextPercent ctx
              - contextPercent_spec (nullish (input_tokens u) 0)
                  (nullish (cache_creation_input_tokens u) 0)
                  (nullish (cache_read_input_tokens u) 0) s\<bar> \<le> 1"
    if h: "usage_of ctx = Some u" "size_of ctx = Some s" "0 < s"
      "0 \<le> nullish (input_tokens u) 0"
      "0 \<le> nullish (cache_creation_input_tokens u) 0"
      "0 \<le> nullish (cache_read_input_tokens u) 0"
      "nullish (input_tokens u) 0 + nullish (cache_creation_input_tokens u) 0
         + nullish (cache_read_input_tokens u) 0 < 2 ^ 53"
      "100 * (nullish (input_tokens u) 0 + nullish (cache_creation_input_tokens u) 0
         + nullish (cache_read_input_tokens u) 0) \<le> 2 ^ 51 * s" for u s
  proof -
    define t where "t = nullish (input_tokens u) 0 + nullish (cache_creation_input_tokens u) 0
         + nullish (cache_read_input_tokens u) 0"
    define x :: rat where "x = of_int t / of_int s"
    have tt: "totalTokens u = of_int t"
      unfolding t_def using h(4-7) by (rule totalTokens_exact)
    have t0: "0 \<le> t" using h(4-6) by (simp add: t_def)
    have S: "(0::rat) < of_int s" using h(3) by simp
    have x0: "0 \<le> x" using t0 S by (simp add: x_def)
    have "(of_int (100 * t) :: rat) \<le> of_int (2 ^ 51 * s)"
      using h(8) unfolding t_def [symmetric] by (simp only: of_int_le_iff)
    then have "100 * (of_int t :: rat) \<le> 2 ^ 51 * of_int s" by simp
    then have x51: "100 * x \<le> 2 ^ 51"
      using S by (simp add: x_def pos_divide_le_eq)
    have code: "getContextPercent ctx = Math_round (fl (fl x * 100))"
      using present [OF h(1,2)] h(3) by (simp add: tt js_mul_def js_div_def x_def)
    have spec: "contextPercent_spec (nullish (input_tokens u) 0)
                  (nullish (cache_creation_input_tokens u) 0)
                  (nullish (cache_read_input_tokens u) 0) s = Math_round (100 * x)"
      by (simp add: contextPercent_spec_def t_def x_def)
    show ?thesis unfolding code spec using x0 x51 by (rule double_percent_close)
  qed
  from absent present close show ?thesis by blast
qed

lemma percent_14: "getContextPercent (snapshot 29000 200000 ts ags tds) = 14"
  unfolding snapshot_def getContextPercent_def usage_of_def size_of_def totalTokens_def
  by code_simp

lemma spec_15: "contextPercent_spec 29000 0 0 200000 = 15"
  by (simp add: contextPercent_spec_def Math_round_def)

theorem context_percent_value_witness:
  "getContextPercent (snapshot 29000 200000 [] [] []) = 14
   \<and> \<bar>getContextPercent (snapshot 29000 200000 [] [] []) - contextPercent_spec 29000 0 0 200000\<bar>
       \<le> 1
   \<and> getContextPercent (snapshot 29000 0 [] [] []) = 0
   \<and> getContextPercent \<lparr>stdin = \<lparr>context_window = None\<rparr>,
        transcript = \<lparr>tools = [], agents = [], todos = []\<rparr>\<rparr> = 0"
  using context_percent_value [of "snapshot 29000 200000 [] [] []"]
        context_percent_value [of "snapshot 29000 0 [] [] []"]
        context_percent_value [of "\<lparr>stdin = \<lparr>context_window = None\<rparr>,
          transcript = \<lparr>tools = [], agents = [], todos = []\<rparr>\<rparr>"]
  by (simp add: percent_14 spec_15) (simp add: snapshot_def usage_of_def size_of_def)

text \<open>
  The claim as written equates the percentage with the rounded \<open>100 * total / size\<close>. With
  29000 tokens in a window of 200000 that is 14.5, rounded to 15 (also when the formula is
  evaluated in doubles in the order written); the code divides first, the double nearest
  to 0.145 lies below it, and the result is 14.
\<close>

theorem context_percent_counterexample:
  "getContextPercent (snapshot 29000 200000 [] [] []) = 14
   \<and> contextPercent_spec 29000 0 0 200000 = 15
   \<and> Math_round (js_div (js_mul 100 (of_int (29000 + 0 + 0))) (of_int 200000)) = 15"
proof -
  have "Math_round (js_div (js_mul 100 (of_int (29000 + 0 + 0))) (of_int 200000)) = 15"
    by code_simp
  then show ?thesis by (simp add: percent_14 spec_15)
qed

section \<open>Merging pricing tables\<close>

text \<open>
  Claim C7. Without an override \<open>mergePricing\<close> returns the base table. With an override,
  every family the override has gets the override's pair of prices, every other family
  keeps the pair of the base, and the date is the override's when it has one and the
  base's otherwise.
\<close>

theorem mergePricing_semantics:
  "mergePricing base None = base
   \<and> (\<forall>f. rate_of f (mergePricing base (Some ov)) =
          (case override_of f ov of None \<Rightarrow> rate_of f base | Some r \<Rightarrow> r))
   \<and> lastUpdated (mergePricing base (Some ov)) =
       (case lastUpdated_opt ov of None \<Rightarrow> lastUpdated base | Some d \<Rightarrow> d)"
proof -
  have "rate_of f (mergePricing base (Some ov)) =
          (case override_of f ov of None \<Rightarrow> rate_of f base | Some r \<Rightarrow> r)" for f
    by (cases f) (simp_all add: mergePricing_def split: option.splits)
  then show ?thesis by (simp add: mergePricing_def)
qed

theorem mergePricing_semantics_witness:
  "mergePricing basePricing None = basePricing
   \<and> inputPricePerMillion (sonnet (mergePricing basePricing
        (Some (noOverride\<lparr>sonnet_opt := Some \<lparr>inputPricePerMillion = 5, outputPricePerMillion = 25\<rparr>\<rparr>)))) = 5
   \<and> outputPricePerMillion (sonnet (mergePricing basePricing
        (Some (noOverride\<lparr>sonnet_opt := Some \<lparr>inputPricePerMillion = 5, outputPricePerMillion = 25\<rparr>\<rparr>)))) = 25
   \<and> inputPricePerMillion (opus (mergePricing basePricing
        (Some (noOverride\<lparr>sonnet_opt := Some \<lparr>inputPricePerMillion = 5, outputPricePerMillion = 25\<rparr>\<rparr>)))) = 15
   \<and> lastUpdated (mergePricing basePricing
        (Some (noOverride\<lparr>lastUpdated_opt := Some ''2025-06-01''\<rparr>))) = ''2025-06-01''"
  using mergePricing_semantics
          [of basePricing "noOverride\<lparr>sonnet_opt := Some \<lparr>inputPricePerMillion = 5, outputPricePerMillion = 25\<rparr>\<rparr>"]
        mergePricing_semantics
          [of basePricing "noOverride\<lparr>lastUpdated_opt := Some ''2025-06-01''\<rparr>"]
        spec [of "\<lambda>f. rate_of f (mergePricing basePricing
           (Some (noOverride\<lparr>sonnet_opt := Some \<lparr>inputPricePerMillion = 5, outputPricePerMillion = 25\<rparr>\<rparr>))) =
          (case override_of f (noOverride\<lparr>sonnet_opt := Some \<lparr>inputPricePerMillion = 5, outputPricePerMillion = 25\<rparr>\<rparr>) of
             None \<Rightarrow> rate_of f basePricing | Some r \<Rightarrow> r)" Sonnet]
  by (simp add: noOverride_def basePricing_def mergePricing_def)

section \<open>Stale pricing\<close>

text \<open>
  Claim C8. For a date that can be read, \<open>isPricingStale\<close> is true exactly when more than
  90 days lie between the date and now: true for a date 200 days back, false for a date 10
  days back, false for today and for any date in the future. A date that cannot be read is
  reported as stale. The function has a value in every case.
\<close>

theorem isPricingStale_threshold:
  "(\<forall>t. parseDate s = Some t \<longrightarrow>
        (isPricingStale parseDate now s \<longleftrightarrow> 90 * msPerDay < now - t))
   \<and> (parseDate s = None \<longrightarrow> isPricingStale parseDate now s)
   \<and> (parseDate s = Some (now - 200 * msPerDay) \<longrightarrow> isPricingStale parseDate now s)
   \<and> (parseDate s = Some (now - 10 * msPerDay) \<longrightarrow> \<not> isPricingStale parseDate now s)
   \<and> (\<forall>d\<ge>0. parseDate s = Some (now + d) \<longrightarrow> \<not> isPricingStale parseDate now s)"
proof -
  have pos: "(0 :: rat) < of_int msPerDay" by (simp add: msPerDay_def)
  have key: "isPricingStale parseDate now s \<longleftrightarrow> 90 * msPerDay < now - t"
    if "parseDate s = Some t" for t
  proof -
    have "isPricingStale parseDate now s \<longleftrightarrow>
          (90 :: rat) * of_int msPerDay < of_int (now - t)"
      using that pos
      by (simp add: isPricingStale_def stalenessThresholdDays_def pos_less_divide_eq)
    also have "\<dots> \<longleftrightarrow> (of_int (90 * msPerDay) :: rat) < of_int (now - t)" by simp
    also have "\<dots> \<longleftrightarrow> 90 * msPerDay < now - t" by (simp only: of_int_less_iff)
    finally show ?thesis .
  qed
  have none: "parseDate s = None \<longrightarrow> isPricingStale parseDate now s"
    by (simp add: isPricingStale_def)
  have old: "parseDate s = Some (now - 200 * msPerDay) \<longrightarrow> isPricingStale parseDate now s"
    using key [of "now - 200 * msPerDay"] by (simp add: msPerDay_def)
  have recent: "parseDate s = Some (now - 10 * msPerDay) \<longrightarrow> \<not> isPricingStale parseDate now s"
    using key [of "now - 10 * msPerDay"] by (simp add: msPerDay_def)
  have future: "\<forall>d\<ge>0. parseDate s = Some (now + d) \<longrightarrow> \<not> isPricingStale parseDate now s"
  proof (intro allI impI)
    fix d :: int assume "0 \<le> d" and "parseDate s = Some (now + d)"
    then show "\<not> isPricingStale parseDate now s"
      using key [of "now + d"] by (simp add: msPerDay_def)
  qed
  from key none old recent future show ?thesis by blast
qed


theorem isPricingStale_threshold_witness:
  "isPricingStale (\<lambda>d. if d = ''2024-01-01'' then Some 0 else None) (200 * msPerDay) ''2024-01-01''
   \<and> \<not> isPricingStale (\<lambda>d. if d = ''2024-01-01'' then Some 0 else None) (10 * msPerDay)
         ''2024-01-01''
   \<and> \<not> isPricingStale (\<lambda>d. if d = ''2024-01-01'' then Some 0 else None) (- 5) ''2024-01-01''
   \<and> isPricingStale (\<lambda>d. if d = ''2024-01-01'' then Some 0 else None) 0 ''soon''"
  using isPricingStale_threshold
          [of "\<lambda>d. if d = ''2024-01-01'' then Some 0 else None" "''2024-01-01''" "200 * msPerDay"]
        isPricingStale_threshold
          [of "\<lambda>d. if d = ''2024-01-01'' then Some 0 else None" "''2024-01-01''" "10 * msPerDay"]
        isPricingStale_threshold
          [of "\<lambda>d. if d = ''2024-01-01'' then Some 0 else None" "''2024-01-01''" "- 5"]
        isPricingStale_threshold
          [of "\<lambda>d. if d = ''2024-01-01'' then Some 0 else None" "''soon''" 0]
  by (simp add: msPerDay_def)

section \<open>The counters of the cost tracker\<close>

lemma processEvent_input_mono: "inputTokens s \<le> inputTokens (processEvent ser rnd e s)"
  by (simp add: processEvent_def split: option.splits)

lemma processEvent_output_mono: "outputTokens s \<le> outputTokens (processEvent ser rnd e s)"
  by (simp add: processEvent_def split: option.splits)

lemma processEvents_mono:
  "inputTokens s \<le> inputTokens (processEvents ser rnd es s)
   \<and> outputTokens s \<le> outputTokens (processEvents ser rnd es s)"
proof (induction es arbitrary: s)
  case Nil
  then show ?case by (simp add: processEvents_def)
next
  case (Cons e es)
  have step: "processEvents ser rnd (e # es) s = processEvents ser rnd es (processEvent ser rnd e s)"
    by (simp add: processEvents_def)
  from Cons.IH [of "processEvent ser rnd e s"]
       processEvent_input_mono [of s ser rnd e] processEvent_output_mono [of s ser rnd e]
  show ?case unfolding step by linarith
qed

text \<open>
  Claim C9. Neither counter decreases when an event is processed, one event or a whole
  stream of them; an event of an unknown kind leaves the state as it is; \<open>setModel\<close> and
  \<open>setPricing\<close> leave the counters alone. \<open>reset\<close> sets both counters to zero and keeps
  the pricing table and the selected model.
\<close>

theorem counters_never_decrease:
  "inputTokens s \<le> inputTokens (processEvent ser rnd e s)
   \<and> outputTokens s \<le> outputTokens (processEvent ser rnd e s)
   \<and> (eventKind e \<noteq> ''PostToolUse'' \<and> eventKind e \<noteq> ''UserPromptSubmit''
        \<longrightarrow> processEvent ser rnd e s = s)
   \<and> inputTokens s \<le> inputTokens (processEvents ser rnd es s)
   \<and> outputTokens s \<le> outputTokens (processEvents ser rnd es s)
   \<and> inputTokens (setModel m s) = inputTokens s
   \<and> outputTokens (setModel m s) = outputTokens s
   \<and> inputTokens (setPricing p s) = inputTokens s
   \<and> outputTokens (setPricing p s) = outputTokens s
   \<and> inputTokens (reset s) = 0 \<and> outputTokens (reset s) = 0
   \<and> pricing (reset s) = pricing s \<and> model (reset s) = model s"
proof -
  have unknown: "eventKind e \<noteq> ''PostToolUse'' \<and> eventKind e \<noteq> ''UserPromptSubmit''
        \<longrightarrow> processEvent ser rnd e s = s"
    by (simp add: processEvent_def)
  have setters: "inputTokens (setModel m s) = inputTokens s
      \<and> outputTokens (setModel m s) = outputTokens s
      \<and> inputTokens (setPricing p s) = inputTokens s
      \<and> outputTokens (setPricing p s) = outputTokens s"
    by (simp add: setModel_def setPricing_def)
  have clear: "inputTokens (reset s) = 0 \<and> outputTokens (reset s) = 0
      \<and> pricing (reset s) = pricing s \<and> model (reset s) = model s"
    by (simp add: reset_def)
  from processEvent_input_mono [of s ser rnd e] processEvent_output_mono [of s ser rnd e]
       processEvents_mono [of s ser rnd es] unknown setters clear
  show ?thesis by blast
qed

lemma estimate_samples:
  "estimateTokens ceilTokens ''{}'' = 1" "estimateTokens ceilTokens ''0123456789'' = 3"
  by code_simp+

theorem counters_never_decrease_witness:
  "inputTokens (processEvent id ceilTokens toolEvent freshTracker) = 1
   \<and> outputTokens (processEvent id ceilTokens toolEvent freshTracker) = 3
   \<and> processEvent id ceilTokens stopEvent (processEvent id ceilTokens toolEvent freshTracker)
       = processEvent id ceilTokens toolEvent freshTracker
   \<and> inputTokens (reset (processEvent id ceilTokens toolEvent freshTracker)) = 0
   \<and> pricing (reset (processEvent id ceilTokens toolEvent freshTracker)) = basePricing"
  using counters_never_decrease [of freshTracker id ceilTokens toolEvent "[]" "''opus''" noOverride]
        counters_never_decrease
          [of "processEvent id ceilTokens toolEvent freshTracker" id ceilTokens stopEvent "[]"
              "''opus''" noOverride]
  by (simp add: processEvent_def estimate_samples toolEvent_def stopEvent_def
      freshTracker_def reset_def)

end
